theory Spec2Isabelle
  imports Main "HOL-Library.AList" "HOL-Library.Sublist"
begin

chapter \<open>The model\<close>

section \<open>JSON values and the persisted configuration file\<close>

text \<open>
  The wrapper reads and writes \<^verbatim>\<open>openclaw.json\<close> through \<^verbatim>\<open>JSON.parse\<close> and
  \<^verbatim>\<open>JSON.stringify\<close>. The model keeps the parsed value: an object is the list of its
  own keys in insertion order, looked up with \<open>map_of\<close>.
\<close>

datatype json =
    JNull
  | JBool bool
  | JNum int
  | JStr string
  | JArr "json list"
  | JObj "(string \<times> json) list"

text \<open>What a file on disk holds: text that \<^verbatim>\<open>JSON.parse\<close> rejects, or a JSON value.\<close>

datatype file_content = Unparsable | Parsed json

text \<open>
  The part of the outside world the gateway supervisor looks at: the file at
  \<^verbatim>\<open>configPath()\<close> (\<open>None\<close> when it does not exist) and whether a write to it succeeds.
\<close>

record world =
  configFile :: "file_content option"
  configWritable :: bool

text \<open>\<^verbatim>\<open>isConfigured()\<close> (config.js): \<^verbatim>\<open>fs.existsSync(configPath())\<close>, \<open>false\<close> on any error.\<close>

definition isConfigured :: "world \<Rightarrow> bool" where
  "isConfigured w \<longleftrightarrow> configFile w \<noteq> None"

text \<open>
  \<^verbatim>\<open>v?.k\<close> for the keys the wrapper reads (\<open>gateway\<close>, \<open>auth\<close>, \<open>token\<close>): an own property
  of an object, \<open>undefined\<close> (\<open>None\<close>) on \<open>null\<close>, arrays and primitives.
\<close>

definition get_prop :: "json \<Rightarrow> string \<Rightarrow> json option" where
  "get_prop v k = (case v of JObj kvs \<Rightarrow> map_of kvs k | _ \<Rightarrow> None)"

text \<open>\<^verbatim>\<open>s.split(c)\<close> for a one-character separator.\<close>

fun split :: "char \<Rightarrow> string \<Rightarrow> string list" where
  "split c [] = [[]]"
| "split c (x # xs) =
     (if x = c then [] # split c xs
      else (case split c xs of [] \<Rightarrow> [[x]] | s # ss \<Rightarrow> (x # s) # ss))"

text \<open>
  \<^verbatim>\<open>s.toLowerCase()\<close> on ASCII text (host names), \<^verbatim>\<open>s.includes(sub)\<close>, and
  \<^verbatim>\<open>s.replace(pat, rep)\<close> for a string pattern and a replacement without \<^verbatim>\<open>$\<close>: the first
  occurrence only. \<^verbatim>\<open>s.startsWith(p)\<close> is \<open>prefix p s\<close>. The last three are the same on
  a string given by its bytes and on one given by its code points.
\<close>

definition toLowerCase_char :: "char \<Rightarrow> char" where
  "toLowerCase_char c =
     (case map_of (zip ''ABCDEFGHIJKLMNOPQRSTUVWXYZ'' ''abcdefghijklmnopqrstuvwxyz'') c of
        Some l \<Rightarrow> l
      | None \<Rightarrow> c)"

definition toLowerCase :: "string \<Rightarrow> string" where
  "toLowerCase s = map toLowerCase_char s"

fun str_includes :: "'a list \<Rightarrow> 'a list \<Rightarrow> bool" where
  "str_includes [] sub = (sub = [])"
| "str_includes (x # xs) sub = (prefix sub (x # xs) \<or> str_includes xs sub)"

fun str_replace :: "'a list \<Rightarrow> 'a list \<Rightarrow> 'a list \<Rightarrow> 'a list" where
  "str_replace [] pat rep = (if pat = [] then rep else [])"
| "str_replace (x # xs) pat rep =
     (if prefix pat (x # xs) then rep @ drop (length pat) (x # xs)
      else x # str_replace xs pat rep)"

text \<open>\<^verbatim>\<open>typeof v === 'object'\<close>: objects, arrays and \<open>null\<close>.\<close>

definition typeof_object :: "json \<Rightarrow> bool" where
  "typeof_object v = (case v of JObj _ \<Rightarrow> True | JArr _ \<Rightarrow> True | JNull \<Rightarrow> True | _ \<Rightarrow> False)"

text \<open>
  The loop of \<^verbatim>\<open>directConfigSet\<close> (config.js) over the parts of the key path, on the
  value \<open>current\<close> points at; \<open>None\<close> is the \<^verbatim>\<open>TypeError\<close> of \<^verbatim>\<open>part in current\<close> or of
  the final assignment on \<open>null\<close> or a primitive. The key parts are taken to be plain
  property names, as those of the two paths \<^verbatim>\<open>startGateway\<close> writes (\<^verbatim>\<open>gateway.mode\<close>,
  \<^verbatim>\<open>gateway.auth.token\<close>) are: not \<^verbatim>\<open>__proto__\<close>, which JavaScript resolves to the
  prototype, and on an array neither an index nor \<^verbatim>\<open>length\<close>. A property stored on an
  array under such a name is dropped by \<^verbatim>\<open>JSON.stringify\<close>, so the array is written back
  as it was.
\<close>

fun set_path :: "string list \<Rightarrow> json \<Rightarrow> json \<Rightarrow> json option" where
  "set_path [] v cur = None"
| "set_path [k] v cur =
     (case cur of
        JObj kvs \<Rightarrow> Some (JObj (AList.update k v kvs))
      | JArr xs \<Rightarrow> Some (JArr xs)
      | _ \<Rightarrow> None)"
| "set_path (k # k' # ks) v cur =
     (case cur of
        JObj kvs \<Rightarrow>
          (let child = (case map_of kvs k of
                          Some c \<Rightarrow> if typeof_object c then c else JObj []
                        | None \<Rightarrow> JObj [])
           in map_option (\<lambda>c'. JObj (AList.update k c' kvs)) (set_path (k' # ks) v child))
      | JArr xs \<Rightarrow> map_option (\<lambda>_. JArr xs) (set_path (k' # ks) v (JObj []))
      | _ \<Rightarrow> None)"

text \<open>
  \<^verbatim>\<open>directConfigSet(keyPath, value)\<close>: start from the parsed file, or from \<open>{}\<close> when it
  is missing or invalid; \<open>None\<close> when the function throws (nothing is written then).
\<close>

definition directConfigSet :: "string \<Rightarrow> json \<Rightarrow> world \<Rightarrow> world option" where
  "directConfigSet keyPath v w =
     (let config = (case configFile w of Some (Parsed j) \<Rightarrow> j | _ \<Rightarrow> JObj [])
      in case set_path (split CHR ''.'' keyPath) v config of
           None \<Rightarrow> None
         | Some config' \<Rightarrow>
             if configWritable w then Some (w\<lparr>configFile := Some (Parsed config')\<rparr>)
             else None)"

section \<open>gateway.js: the gateway supervisor\<close>

text \<open>
  The module variables of gateway.js. \<open>gatewayProc\<close> holds the handle of the child (the
  index of its spawn); \<open>gatewayStarting\<close> holds the promise of the in-flight start (the
  number of that start). \<open>spawnLog\<close> is instrumentation: one entry, the token passed
  with \<^verbatim>\<open>--token\<close>, per call of \<^verbatim>\<open>childProcess.spawn\<close> for the gateway.
\<close>

record gateway_module =
  gatewayProc :: "nat option"
  gatewayStarting :: "nat option"
  lastGatewayToken :: "string option"
  crashCount :: nat
  lastCrashTime :: int
  spawnLog :: "string list"

definition MAX_CRASH_RESTARTS :: nat where
  "MAX_CRASH_RESTARTS = 5"

definition CRASH_WINDOW_MS :: int where
  "CRASH_WINDOW_MS = 300000"

text \<open>A string variable is truthy when it is set and not empty.\<close>

definition truthy :: "string option \<Rightarrow> bool" where
  "truthy t = (case t of Some s \<Rightarrow> s \<noteq> [] | None \<Rightarrow> False)"

subsection \<open>The exit handler\<close>

datatype restart_action = NoRestart | ScheduleRestart nat | TooManyCrashes

text \<open>
  \<^verbatim>\<open>gatewayProc.on("exit", (code, signal) => ...)\<close>: \<open>code\<close> and \<open>signal\<close> are \<open>null\<close>
  (\<open>None\<close>) or a value, \<open>now\<close> is \<^verbatim>\<open>Date.now()\<close>. \<open>ScheduleRestart d\<close> is the
  \<^verbatim>\<open>setTimeout\<close> of the restart after \<open>d\<close> milliseconds.
\<close>

definition gatewayProc_on_exit ::
  "int option \<Rightarrow> string option \<Rightarrow> int \<Rightarrow> gateway_module \<Rightarrow> gateway_module \<times> restart_action" where
  "gatewayProc_on_exit code signal now m =
     (let m1 = m\<lparr>gatewayProc := None\<rparr> in
      if signal \<noteq> Some ''SIGTERM'' \<and> signal \<noteq> Some ''SIGINT'' \<and> code \<noteq> Some 0
         \<and> truthy (lastGatewayToken m1)
      then
        (let m2 = (if now - lastCrashTime m1 > CRASH_WINDOW_MS then m1\<lparr>crashCount := 0\<rparr> else m1);
             m3 = m2\<lparr>lastCrashTime := now\<rparr>;
             m4 = m3\<lparr>crashCount := crashCount m3 + 1\<rparr>
         in if crashCount m4 \<le> MAX_CRASH_RESTARTS
            then (m4, ScheduleRestart (min (2000 * 2 ^ (crashCount m4 - 1)) 30000))
            else (m4, TooManyCrashes))
      else (m1, NoRestart))"

text \<open>A sequence of exits, each given as (code, signal, time): the handler's decisions.\<close>

fun exit_decisions ::
  "(int option \<times> string option \<times> int) list \<Rightarrow> gateway_module \<Rightarrow> restart_action list" where
  "exit_decisions [] m = []"
| "exit_decisions ((code, signal, now) # es) m =
     (case gatewayProc_on_exit code signal now m of
        (m', a) \<Rightarrow> a # exit_decisions es m')"

text \<open>
  Exit times with no gap longer than \<open>CRASH_WINDOW_MS\<close>: each exit comes no later than
  five minutes after the one before it (the first one after \<open>t0\<close>), which is the test
  \<^verbatim>\<open>now - lastCrashTime > CRASH_WINDOW_MS\<close> failing every time. Such a chain of exits
  can be of any length in time.
\<close>

fun no_gap_over_window :: "int \<Rightarrow> int list \<Rightarrow> bool" where
  "no_gap_over_window t0 [] = True"
| "no_gap_over_window t0 (t # ts) = (\<not> t - t0 > CRASH_WINDOW_MS \<and> no_gap_over_window t ts)"

text \<open>
  The counter as the specification words it, to compare with \<open>crashCount\<close>: the number
  of the crashes at times \<open>ts\<close> that lie in the five minutes ending at \<open>t\<close>.
\<close>

definition spec_rolling_window_count :: "int list \<Rightarrow> int \<Rightarrow> nat" where
  "spec_rolling_window_count ts t = length (filter (\<lambda>u. t - CRASH_WINDOW_MS < u \<and> u \<le> t) ts)"

subsection \<open>startGateway\<close>

text \<open>
  What the supervisor reads besides the module variables and the configuration file:
  the token resolved at module load (config.js), constants, environment variables (after \<^verbatim>\<open>?.trim()\<close>), whether the directories can be
  created and the auth store written, and the repair \<^verbatim>\<open>fixInvalidConfig\<close> applies to a
  parsed configuration (\<open>None\<close>: nothing to change).
\<close>

record env =
  OPENCLAW_GATEWAY_TOKEN :: string
  INTERNAL_GATEWAY_PORT :: string
  DEFAULT_MODEL :: "string option"
  ANTHROPIC_SETUP_TOKEN :: "string option"
  mkdirOk :: bool
  authStoreWritable :: bool
  repairConfig :: "json \<Rightarrow> json option"

text \<open>
  \<^verbatim>\<open>fixInvalidConfig()\<close> (config.js): returns when the file is missing, gives up silently
  when it does not parse or cannot be written, and writes the repaired value back only
  when something changed. Which providers and profiles it drops is \<open>repairConfig\<close>.
\<close>

definition fixInvalidConfig :: "env \<Rightarrow> world \<Rightarrow> world" where
  "fixInvalidConfig e w =
     (case configFile w of
        Some (Parsed config) \<Rightarrow>
          (case repairConfig e config of
             Some config' \<Rightarrow> if configWritable w then w\<lparr>configFile := Some (Parsed config')\<rparr> else w
           | None \<Rightarrow> w)
      | _ \<Rightarrow> w)"

text \<open>
  The configuration CLI is an external program: \<^verbatim>\<open>runCmd(OPENCLAW_NODE, clawArgs(args))\<close>
  resolves with an exit code and may have changed the world in any way. The \<open>n\<close>-th call
  made by one start is answered by \<open>cli n args w\<close>.
\<close>

type_synonym cli = "nat \<Rightarrow> string list \<Rightarrow> world \<Rightarrow> int \<times> world"

definition runCmd :: "cli \<Rightarrow> string list \<Rightarrow> nat \<times> world \<Rightarrow> int \<times> (nat \<times> world)" where
  "runCmd c args nw = (case nw of (n, w) \<Rightarrow> (case c n args w of (code, w') \<Rightarrow> (code, (Suc n, w'))))"

fun runCmds :: "cli \<Rightarrow> string list list \<Rightarrow> nat \<times> world \<Rightarrow> nat \<times> world" where
  "runCmds c [] nw = nw"
| "runCmds c (args # rest) nw = runCmds c rest (snd (runCmd c args nw))"

datatype start_error = NotConfiguredError | MkdirFailed | ConfigUnreadable | TokenMismatch | NotReady

datatype start_result = AlreadyRunning | Spawned nat

datatype begin_result = BeginReturn | BeginThrow start_error | BeginAwait

text \<open>
  \<^verbatim>\<open>startGateway\<close> up to its first \<^verbatim>\<open>await\<close>: the early return, the configuration check,
  the two \<^verbatim>\<open>mkdirSync\<close> and \<^verbatim>\<open>fixInvalidConfig()\<close>.
\<close>

definition startGateway_begin :: "env \<Rightarrow> gateway_module \<Rightarrow> world \<Rightarrow> begin_result \<times> world" where
  "startGateway_begin e m w =
     (if gatewayProc m \<noteq> None then (BeginReturn, w)
      else if \<not> isConfigured w then (BeginThrow NotConfiguredError, w)
      else if \<not> mkdirOk e then (BeginThrow MkdirFailed, w)
      else (BeginAwait, fixInvalidConfig e w))"

text \<open>
  The commands after the token one, in the order they are awaited. The two
  \<^verbatim>\<open>auth.profiles\<close> commands sit in the \<^verbatim>\<open>try\<close> block that first writes the auth store, so
  they run only when that write succeeds.
\<close>

definition laterCommands :: "env \<Rightarrow> string list list" where
  \<open>laterCommands e =
     [[''config'', ''set'', ''gateway.http.endpoints.chatCompletions.enabled'', ''true''],
      [''config'', ''set'', ''gateway.auth.mode'', ''token''],
      [''config'', ''set'', ''gateway.bind'', ''loopback''],
      [''config'', ''set'', ''gateway.port'', INTERNAL_GATEWAY_PORT e],
      [''config'', ''set'', ''gateway.controlUi.enabled'', ''false''],
      [''config'', ''set'', ''--json'', ''gateway.trustedProxies'',
       ''["127.0.0.1/8","::1/128","100.64.0.0/10","172.16.0.0/12"]'']]
     @ (case DEFAULT_MODEL e of
          Some envModel \<Rightarrow>
            if envModel \<noteq> [] then [[''config'', ''set'', ''agents.defaults.model.primary'', envModel]]
            else []
        | None \<Rightarrow> [])
     @ (if truthy (ANTHROPIC_SETUP_TOKEN e) \<and> authStoreWritable e
        then [[''config'', ''set'', ''auth.profiles.anthropic:default.provider'', ''anthropic''],
              [''config'', ''set'', ''auth.profiles.anthropic:default.mode'', ''token'']]
        else [])\<close>

text \<open>
  The awaited commands of one start: the exit code of the token command
  (\<^verbatim>\<open>syncResult.code\<close>) and the world they leave.
\<close>

definition configSync :: "env \<Rightarrow> cli \<Rightarrow> string \<Rightarrow> world \<Rightarrow> int \<times> world" where
  "configSync e c tok w =
     (let nw1 = snd (runCmd c [''config'', ''set'', ''gateway.mode'', ''local''] (0, w));
          r2 = runCmd c [''config'', ''set'', ''gateway.auth.token'', tok] nw1;
          nw3 = runCmds c (laterCommands e) (snd r2)
      in (fst r2, snd nw3))"

text \<open>
  The fallback when the token command failed: two direct writes in one \<^verbatim>\<open>try\<close> block
  whose \<^verbatim>\<open>catch\<close> only logs.
\<close>

definition directFallback :: "string \<Rightarrow> world \<Rightarrow> world" where
  "directFallback tok w =
     (case directConfigSet ''gateway.mode'' (JStr ''local'') w of
        None \<Rightarrow> w
      | Some w1 \<Rightarrow>
          (case directConfigSet ''gateway.auth.token'' (JStr tok) w1 of
             None \<Rightarrow> w1
           | Some w2 \<Rightarrow> w2))"

text \<open>
  The read-back: \<^verbatim>\<open>JSON.parse(fs.readFileSync(configPath()))\<close> throws on a missing or
  invalid file; otherwise \<^verbatim>\<open>config?.gateway?.auth?.token\<close>.
\<close>

definition readConfigToken :: "world \<Rightarrow> start_error + json option" where
  "readConfigToken w =
     (case configFile w of
        Some (Parsed config) \<Rightarrow>
          Inr (Option.bind (Option.bind (get_prop config ''gateway'') (\<lambda>g. get_prop g ''auth''))
                 (\<lambda>a. get_prop a ''token''))
      | _ \<Rightarrow> Inl ConfigUnreadable)"

text \<open>
  \<^verbatim>\<open>startGateway\<close> from the return of its last awaited command to its end, which runs
  without interruption: the fallback, the verification (\<^verbatim>\<open>configToken !== TOKEN\<close> holds
  unless the value read is that very string), the spawn, and the assignments to
  \<open>gatewayProc\<close> and \<open>lastGatewayToken\<close>.
\<close>

definition startGateway_finish ::
  "string \<Rightarrow> int \<Rightarrow> gateway_module \<Rightarrow> world \<Rightarrow> (start_error + start_result) \<times> gateway_module \<times> world" where
  "startGateway_finish tok syncCode m w =
     (let w1 = (if syncCode \<noteq> 0 then directFallback tok w else w) in
      case readConfigToken w1 of
        Inl err \<Rightarrow> (Inl err, m, w1)
      | Inr configToken \<Rightarrow>
          if configToken \<noteq> Some (JStr tok) then (Inl TokenMismatch, m, w1)
          else (let p = length (spawnLog m) in
                (Inr (Spawned p),
                 m\<lparr>gatewayProc := Some p, lastGatewayToken := Some tok,
                   spawnLog := spawnLog m @ [tok]\<rparr>,
                 w1)))"

text \<open>\<^verbatim>\<open>startGateway(TOKEN)\<close> run on its own, from call to return or throw.\<close>

definition startGateway ::
  "env \<Rightarrow> cli \<Rightarrow> string \<Rightarrow> gateway_module \<Rightarrow> world \<Rightarrow> (start_error + start_result) \<times> gateway_module \<times> world" where
  "startGateway e c tok m w =
     (case startGateway_begin e m w of
        (BeginReturn, w0) \<Rightarrow> (Inr AlreadyRunning, m, w0)
      | (BeginThrow err, w0) \<Rightarrow> (Inl err, m, w0)
      | (BeginAwait, w0) \<Rightarrow>
          (case configSync e c tok w0 of
             (syncCode, w1) \<Rightarrow> startGateway_finish tok syncCode m w1))"

subsection \<open>ensureGatewayRunning and the event loop\<close>

text \<open>
  Node runs one callback at a time, and an \<^verbatim>\<open>async\<close> function gives way only at an
  \<^verbatim>\<open>await\<close>. The supervisor is therefore a state that events transform, each event the
  code that runs without interruption after a call or after an awaited result:
  \<^item> \<open>starts\<close>: the async bodies created by \<^verbatim>\<open>ensureGatewayRunning\<close> that have not
    settled, each with the number of its promise and the stage it is suspended at: in
    the awaited commands of \<^verbatim>\<open>startGateway\<close>, or in \<^verbatim>\<open>waitForGatewayReady\<close>;
  \<^item> \<open>started\<close>: how many such bodies have been created, the number of the next one;
  \<^item> \<open>waiters\<close>: the callers of \<^verbatim>\<open>ensureGatewayRunning\<close> suspended at
    \<^verbatim>\<open>await gatewayStarting\<close>, in order of arrival, each with the promise it awaits;
  \<^item> \<open>outcomes\<close>: what each caller got, in the order the calls completed;
  \<^item> \<open>timers\<close>: the delays of the pending \<^verbatim>\<open>setTimeout\<close> restarts;
  \<^item> \<open>restarts\<close>: the \<^verbatim>\<open>startGateway(lastGatewayToken)\<close> calls of fired timers that are
    suspended in their awaited commands, with the token each was given;
  \<^item> \<open>running\<close>: instrumentation, the children spawned and not yet gone.
\<close>

datatype start_stage = Syncing | WaitingReady

datatype ensure_outcome = OkTrue | NotConfigured | Threw start_error

record supervisor =
  gmod :: gateway_module
  wld :: world
  starts :: "(nat \<times> start_stage) list"
  started :: nat
  waiters :: "(nat \<times> nat) list"
  outcomes :: "(nat \<times> ensure_outcome) list"
  timers :: "nat list"
  restarts :: "string list"
  running :: "nat list"

text \<open>
  The promise of start \<open>i\<close> settles: \<^verbatim>\<open>.finally(() => { gatewayStarting = null })\<close> runs,
  whatever \<open>gatewayStarting\<close> holds, then every caller suspended on that promise
  resumes, returning \<^verbatim>\<open>{ ok: true }\<close> or rethrowing.
\<close>

definition settle :: "nat \<Rightarrow> ensure_outcome \<Rightarrow> supervisor \<Rightarrow> supervisor" where
  "settle i out s =
     s\<lparr>gmod := (gmod s)\<lparr>gatewayStarting := None\<rparr>,
       starts := filter (\<lambda>(j, st). j \<noteq> i) (starts s),
       outcomes := outcomes s @ map (\<lambda>(c, j). (c, out)) (filter (\<lambda>(c, j). j = i) (waiters s)),
       waiters := filter (\<lambda>(c, j). j \<noteq> i) (waiters s)\<rparr>"

text \<open>
  Caller \<open>c\<close> calls \<^verbatim>\<open>ensureGatewayRunning(OPENCLAW_GATEWAY_TOKEN)\<close>: the code up to the
  first suspension. When \<open>gatewayStarting\<close> is not set, a new async body is created and
  runs \<^verbatim>\<open>startGateway\<close> up to its first \<^verbatim>\<open>await\<close>; a body that throws there rejects at
  once, and the caller has its error before any other callback runs. When
  \<open>gatewayStarting\<close> is set, the caller awaits the promise it holds.
\<close>

definition ensureGatewayRunning :: "env \<Rightarrow> nat \<Rightarrow> supervisor \<Rightarrow> supervisor" where
  "ensureGatewayRunning e c s =
     (if \<not> isConfigured (wld s) then s\<lparr>outcomes := outcomes s @ [(c, NotConfigured)]\<rparr>
      else if gatewayProc (gmod s) \<noteq> None then s\<lparr>outcomes := outcomes s @ [(c, OkTrue)]\<rparr>
      else
        (case gatewayStarting (gmod s) of
           Some i \<Rightarrow> s\<lparr>waiters := waiters s @ [(c, i)]\<rparr>
         | None \<Rightarrow>
             (let i = started s in
              case startGateway_begin e (gmod s) (wld s) of
                (BeginAwait, w0) \<Rightarrow>
                  s\<lparr>gmod := (gmod s)\<lparr>gatewayStarting := Some i\<rparr>, wld := w0,
                    starts := starts s @ [(i, Syncing)], started := Suc i,
                    waiters := waiters s @ [(c, i)]\<rparr>
              | (BeginReturn, w0) \<Rightarrow>
                  s\<lparr>gmod := (gmod s)\<lparr>gatewayStarting := Some i\<rparr>, wld := w0,
                    starts := starts s @ [(i, WaitingReady)], started := Suc i,
                    waiters := waiters s @ [(c, i)]\<rparr>
              | (BeginThrow err, w0) \<Rightarrow>
                  s\<lparr>wld := w0, started := Suc i, outcomes := outcomes s @ [(c, Threw err)]\<rparr>)))"

text \<open>
  The awaited commands of start \<open>i\<close> have resolved, the token command with \<open>code\<close>,
  leaving the world \<open>w'\<close>: the rest of \<^verbatim>\<open>startGateway\<close> runs. A throw rejects the promise;
  a return lets the body go on to \<^verbatim>\<open>waitForGatewayReady\<close>.
\<close>

definition syncDone :: "env \<Rightarrow> nat \<Rightarrow> int \<Rightarrow> world \<Rightarrow> supervisor \<Rightarrow> supervisor" where
  "syncDone e i code w' s =
     (if (i, Syncing) \<notin> set (starts s) then s
      else (case startGateway_finish (OPENCLAW_GATEWAY_TOKEN e) code (gmod s) w' of
              (Inl err, m', w1) \<Rightarrow> settle i (Threw err) (s\<lparr>gmod := m', wld := w1\<rparr>)
            | (Inr r, m', w1) \<Rightarrow>
                s\<lparr>gmod := m', wld := w1,
                  starts := map (\<lambda>(j, st). if j = i then (j, WaitingReady) else (j, st)) (starts s),
                  running := running s @ (case r of Spawned p \<Rightarrow> [p] | AlreadyRunning \<Rightarrow> [])\<rparr>))"

text \<open>
  \<^verbatim>\<open>waitForGatewayReady\<close> has returned \<open>ready\<close> to start \<open>i\<close>: the body returns, or throws
  "Gateway did not become ready in time".
\<close>

definition readyResult :: "nat \<Rightarrow> bool \<Rightarrow> supervisor \<Rightarrow> supervisor" where
  "readyResult i ready s =
     (if (i, WaitingReady) \<notin> set (starts s) then s
      else settle i (if ready then OkTrue else Threw NotReady) s)"

text \<open>Child \<open>p\<close> exits: the exit handler runs, and a restart it schedules is a new timer.\<close>

definition childExit :: "nat \<Rightarrow> int option \<Rightarrow> string option \<Rightarrow> int \<Rightarrow> supervisor \<Rightarrow> supervisor" where
  "childExit p code signal now s =
     (if p \<notin> set (running s) then s
      else (case gatewayProc_on_exit code signal now (gmod s) of
              (m', a) \<Rightarrow>
                s\<lparr>gmod := m', running := removeAll p (running s),
                  timers := timers s @ (case a of ScheduleRestart d \<Rightarrow> [d] | _ \<Rightarrow> [])\<rparr>))"

text \<open>
  The spawn of child \<open>p\<close> fails: the child emits \<^verbatim>\<open>error\<close> and no \<^verbatim>\<open>exit\<close>. The listener
  \<^verbatim>\<open>gatewayProc.on("error", ...)\<close> clears the handle; nothing is counted and no restart
  is scheduled.
\<close>

definition childError :: "nat \<Rightarrow> supervisor \<Rightarrow> supervisor" where
  "childError p s =
     (if p \<notin> set (running s) then s
      else s\<lparr>gmod := (gmod s)\<lparr>gatewayProc := None\<rparr>, running := removeAll p (running s)\<rparr>)"

text \<open>
  The oldest restart timer fires: \<^verbatim>\<open>startGateway(lastGatewayToken)\<close> runs up to its first
  \<^verbatim>\<open>await\<close>; an early return ends it, a throw is caught and logged.
\<close>

definition timerFire :: "env \<Rightarrow> supervisor \<Rightarrow> supervisor" where
  "timerFire e s =
     (case timers s of
        [] \<Rightarrow> s
      | d # ds \<Rightarrow>
          (case lastGatewayToken (gmod s) of
             None \<Rightarrow> s\<lparr>timers := ds\<rparr>
           | Some tok \<Rightarrow>
               (case startGateway_begin e (gmod s) (wld s) of
                  (BeginAwait, w0) \<Rightarrow> s\<lparr>timers := ds, wld := w0, restarts := restarts s @ [tok]\<rparr>
                | (_, w0) \<Rightarrow> s\<lparr>timers := ds, wld := w0\<rparr>)))"

text \<open>The awaited commands of the oldest suspended restart have resolved.\<close>

definition restartSyncDone :: "int \<Rightarrow> world \<Rightarrow> supervisor \<Rightarrow> supervisor" where
  "restartSyncDone code w' s =
     (case restarts s of
        [] \<Rightarrow> s
      | tok # rest \<Rightarrow>
          (case startGateway_finish tok code (gmod s) w' of
             (Inl err, m', w1) \<Rightarrow> s\<lparr>gmod := m', wld := w1, restarts := rest\<rparr>
           | (Inr r, m', w1) \<Rightarrow>
               s\<lparr>gmod := m', wld := w1, restarts := rest,
                 running := running s @ (case r of Spawned p \<Rightarrow> [p] | AlreadyRunning \<Rightarrow> [])\<rparr>))"

datatype event =
    Call nat
  | SyncDone nat int world
  | Ready nat bool
  | ChildExit nat "int option" "string option" int
  | ChildError nat
  | TimerFire
  | RestartSyncDone int world

fun step :: "env \<Rightarrow> event \<Rightarrow> supervisor \<Rightarrow> supervisor" where
  "step e (Call c) s = ensureGatewayRunning e c s"
| "step e (SyncDone i code w') s = syncDone e i code w' s"
| "step e (Ready i ready) s = readyResult i ready s"
| "step e (ChildExit p code signal now) s = childExit p code signal now s"
| "step e (ChildError p) s = childError p s"
| "step e TimerFire s = timerFire e s"
| "step e (RestartSyncDone code w') s = restartSyncDone code w' s"

definition run :: "env \<Rightarrow> event list \<Rightarrow> supervisor \<Rightarrow> supervisor" where
  "run e evs s = fold (step e) evs s"




text \<open>The state after module load: nothing started, nothing scheduled.\<close>

definition initial :: "world \<Rightarrow> supervisor" where
  "initial w =
     \<lparr>gmod = \<lparr>gatewayProc = None, gatewayStarting = None, lastGatewayToken = None,
              crashCount = 0, lastCrashTime = 0, spawnLog = []\<rparr>,
      wld = w, starts = [], started = 0, waiters = [], outcomes = [], timers = [],
      restarts = [], running = []\<rparr>"

text \<open>A deployment used in the examples: a token, and a configuration file holding it.\<close>

definition example_env :: env where
  "example_env =
     \<lparr>OPENCLAW_GATEWAY_TOKEN = ''s3cret'', INTERNAL_GATEWAY_PORT = ''18789'',
      DEFAULT_MODEL = None, ANTHROPIC_SETUP_TOKEN = None, mkdirOk = True,
      authStoreWritable = True, repairConfig = (\<lambda>_. None)\<rparr>"

definition config_with_token :: "string \<Rightarrow> world" where
  "config_with_token tok =
     \<lparr>configFile = Some (Parsed (JObj [(''gateway'', JObj [(''mode'', JStr ''local''),
         (''auth'', JObj [(''token'', JStr tok)])])])),
      configWritable = True\<rparr>"

definition unconfigured :: world where
  "unconfigured = \<lparr>configFile = None, configWritable = True\<rparr>"

section \<open>server.js: routing\<close>

datatype http_method = GET | HEAD | POST | PUT | PATCH | DELETE | OPTIONS

datatype proxy_tag = TagDashboard | TagDevServer | TagProdServer

datatype backend = GATEWAY_TARGET | DASHBOARD_TARGET | DEV_SERVER_TARGET | PROD_SERVER_TARGET

datatype static_root = PRODUCTION_DIR | DEV_DIST_DIR | DEV_DIR

datatype page = LlmsTxt | LlmsFullTxt | RobotsTxt | GatewayNotReadyText

text \<open>
  A request as the handlers see it, after \<^verbatim>\<open>express.json()\<close> and \<^verbatim>\<open>cookieParser()\<close>:
  \<open>req_hostname\<close> is \<^verbatim>\<open>req.hostname\<close>, \<open>req_path\<close> is \<^verbatim>\<open>req.path\<close>, \<open>req_body\<close> is
  \<^verbatim>\<open>req.body\<close> (\<open>None\<close> when no JSON body was parsed) and \<open>req_proxyTarget\<close> is the tag
  \<^verbatim>\<open>req._proxyTarget\<close>.
\<close>

record request =
  req_method :: http_method
  req_hostname :: "string option"
  req_path :: string
  req_body :: "json option"
  req_proxyTarget :: "proxy_tag option"

text \<open>
  What the routing code asks of the rest of the process: \<^verbatim>\<open>isConfigured()\<close>,
  \<^verbatim>\<open>getClientDomain()\<close>, \<^verbatim>\<open>getDevServerProcess()\<close>, \<^verbatim>\<open>isProdSSR()\<close>,
  \<^verbatim>\<open>getProdServerProcess()\<close>, and whether \<^verbatim>\<open>DEV_DIR/dist\<close> exists.
\<close>

record server_state =
  configured :: bool
  clientDomain :: "string option"
  devServerProcess :: bool
  prodSSR :: bool
  prodServerProcess :: bool
  devDistExists :: bool

text \<open>
  What a handler does, in the order it does it. \<open>EnsureGatewayRunning\<close> is the awaited
  call \<^verbatim>\<open>ensureGatewayRunning(OPENCLAW_GATEWAY_TOKEN)\<close>; \<open>Route m p\<close> stands for the
  handler registered with \<^verbatim>\<open>app.get(p, ...)\<close> or \<^verbatim>\<open>app.post(p, ...)\<close> taking the request;
  \<open>NotFound\<close> is Express answering 404 when no layer is left, \<open>AllowOptions ms\<close> its
  answer 200 to an \<^verbatim>\<open>OPTIONS\<close> request, with the methods \<open>ms\<close> in the \<^verbatim>\<open>Allow\<close> header;
  \<open>ProxyWs\<close> carries the rewritten path, its query parameters and the extra headers.
\<close>

datatype effect =
    Redirect string
  | Next
  | SetHeader string string
  | SetType string
  | Status nat
  | Send page
  | EnsureGatewayRunning
  | SetProxyTarget proxy_tag
  | ProxyWeb backend
  | ServeStaticSite static_root
  | Route http_method string
  | NotFound
  | AllowOptions "http_method list"
  | SocketDestroy
  | ProxyWs backend string "(string \<times> string) list" "(string \<times> string) list"

definition allow_listed :: "string \<Rightarrow> bool" where
  "allow_listed p \<longleftrightarrow> p = ''/api/webhook/github'' \<or> p = ''/api/rebuild'' \<or> p = ''/status''"

text \<open>
  The code that ends the routing middleware, and that its \<^verbatim>\<open>/openclaw\<close> branch repeats:
  when configured, await \<^verbatim>\<open>ensureGatewayRunning\<close> and answer 503 if it throws; then
  proxy to the gateway. \<open>ens\<close> is what the awaited call gives.
\<close>

definition ensure_then_proxy :: "server_state \<Rightarrow> ensure_outcome \<Rightarrow> effect list" where
  "ensure_then_proxy st ens =
     (if configured st then
        EnsureGatewayRunning #
        (case ens of
           Threw err \<Rightarrow> [Status 503, SetType ''text/plain'', Send GatewayNotReadyText]
         | _ \<Rightarrow> [ProxyWeb GATEWAY_TARGET])
      else [ProxyWeb GATEWAY_TARGET])"

text \<open>The middleware \<^verbatim>\<open>app.use(async (req, res, next) => ...)\<close> registered after the routes.\<close>

definition routing_middleware :: "server_state \<Rightarrow> ensure_outcome \<Rightarrow> request \<Rightarrow> effect list" where
  "routing_middleware st ens req =
     (if \<not> configured st \<and> \<not> prefix ''/setup'' (req_path req) then [Redirect ''/setup'']
      else if truthy (clientDomain st) then
        (let d = (case clientDomain st of Some d \<Rightarrow> d | None \<Rightarrow> []);
             host = map_option toLowerCase (req_hostname req)
         in if allow_listed (req_path req) then [Next]
            else if host = Some d \<or> host = Some (''www.'' @ d) then
              (if req_path req = ''/llms.txt''
               then [SetType ''text/plain; charset=utf-8'', Send LlmsTxt]
               else if req_path req = ''/llms-full.txt''
               then [SetType ''text/plain; charset=utf-8'', Send LlmsFullTxt]
               else if prodSSR st \<and> prodServerProcess st
               then [SetProxyTarget TagProdServer, ProxyWeb PROD_SERVER_TARGET]
               else [ServeStaticSite PRODUCTION_DIR])
            else if host = Some (''dev.'' @ d) then
              (if req_path req = ''/robots.txt''
               then [SetHeader ''X-Robots-Tag'' ''noindex, nofollow'', SetType ''text/plain'',
                     Send RobotsTxt]
               else SetHeader ''X-Robots-Tag'' ''noindex, nofollow'' #
                    (if devServerProcess st
                     then [SetProxyTarget TagDevServer, ProxyWeb DEV_SERVER_TARGET]
                     else [ServeStaticSite (if devDistExists st then DEV_DIST_DIR else DEV_DIR)]))
            else if host = Some (''gerald.'' @ d) then
              (if prefix ''/openclaw'' (req_path req) then ensure_then_proxy st ens
               else [SetProxyTarget TagDashboard, ProxyWeb DASHBOARD_TARGET])
            else ensure_then_proxy st ens)
      else ensure_then_proxy st ens)"

text \<open>
  The routes registered before the routing middleware, in order of registration, and
  those registered after it. Express tries the layers in that order; a route takes a
  request when method and path match, \<^verbatim>\<open>app.get\<close> also taking HEAD, the path compared
  without regard to case and with an optional trailing slash.
\<close>

definition early_routes :: "(http_method \<times> string) list" where
  "early_routes =
     [(GET, ''/setup/healthz''), (GET, ''/setup/diagnostic''), (GET, ''/status''),
      (GET, ''/setup/app.js''), (GET, ''/setup/styles.css''), (GET, ''/setup''),
      (GET, ''/setup/api/status''), (POST, ''/setup/api/github/start-auth''),
      (POST, ''/setup/api/github/poll-auth''), (GET, ''/setup/api/github/repos''),
      (GET, ''/setup/api/github/status''), (POST, ''/setup/api/github/disconnect''),
      (POST, ''/api/github/start-auth''), (POST, ''/api/github/poll-auth''),
      (GET, ''/api/github/repos''), (GET, ''/api/github/status''),
      (POST, ''/api/github/disconnect''), (GET, ''/api/push/vapid-key''),
      (POST, ''/api/push/subscribe''), (POST, ''/api/push/unsubscribe''),
      (POST, ''/api/push/test''), (POST, ''/setup/api/codex/start-auth''),
      (POST, ''/setup/api/codex/save-token''), (GET, ''/setup/api/codex/status''),
      (POST, ''/setup/api/codex/disconnect''),
      (GET, ''/api/model-settings/openai-codex/status''),
      (POST, ''/api/model-settings/openai-codex/disconnect''),
      (GET, ''/setup/api/claude/status''), (POST, ''/setup/api/claude/save-token''),
      (POST, ''/setup/api/claude/disconnect''), (POST, ''/setup/api/run''),
      (GET, ''/setup/api/debug''), (POST, ''/setup/api/pairing/approve''),
      (POST, ''/setup/api/reset''), (POST, ''/setup/api/gateway/start''),
      (POST, ''/setup/api/gateway/restart''), (GET, ''/setup/api/gateway/status''),
      (POST, ''/setup/api/config/repair''), (GET, ''/setup/api/config/repair''),
      (POST, ''/setup/api/dashboard/start''), (GET, ''/setup/api/dashboard/status''),
      (POST, ''/api/rebuild''), (POST, ''/api/rebuild-dashboard''),
      (POST, ''/api/rebuild-workspace''), (POST, ''/api/config/workspace-repo''),
      (GET, ''/api/config/workspace-repo''), (POST, ''/api/verify-sendgrid-domain''),
      (POST, ''/api/webhook/github''), (GET, ''/setup/export'')]"

definition late_routes :: "(http_method \<times> string) list" where
  "late_routes =
     [(GET, ''/api/dashboard/gerald-version''), (POST, ''/api/dashboard/gerald-update''),
      (GET, ''/api/system/health''), (GET, ''/api/health/summary''),
      (GET, ''/api/health/history/:metric''), (GET, ''/api/health/hourly/:metric''),
      (GET, ''/api/health/vitals''), (GET, ''/api/health/workouts/today'')]"

definition method_matches :: "http_method \<Rightarrow> http_method \<Rightarrow> bool" where
  "method_matches m route_method \<longleftrightarrow> m = route_method \<or> (m = HEAD \<and> route_method = GET)"

text \<open>
  A route path against a request path. The one parameter the routes use, \<^verbatim>\<open>:metric\<close>,
  comes last in its path and stands for one segment that is not empty.
\<close>

definition path_matches :: "string \<Rightarrow> string \<Rightarrow> bool" where
  "path_matches route_path p =
     (let q = toLowerCase p;
          q' = (if q \<noteq> [] \<and> last q = CHR ''/'' then butlast q else q)
      in if suffix '':metric'' route_path then
           (let stem = take (length route_path - 7) route_path
            in prefix stem q' \<and> length stem < length q' \<and> CHR ''/'' \<notin> set (drop (length stem) q'))
         else q = route_path \<or> q = route_path @ ''/'')"

definition find_route :: "(http_method \<times> string) list \<Rightarrow> request \<Rightarrow> (http_method \<times> string) option" where
  "find_route routes req =
     find (\<lambda>(m, p). method_matches (req_method req) m \<and> path_matches p (req_path req)) routes"

text \<open>
  The methods Express collects for an \<^verbatim>\<open>OPTIONS\<close> request on its way through the
  routes: those of every route whose path matches, \<^verbatim>\<open>HEAD\<close> along with \<^verbatim>\<open>GET\<close>, each
  once.
\<close>

definition options_methods :: "(http_method \<times> string) list \<Rightarrow> request \<Rightarrow> http_method list" where
  "options_methods routes req =
     remdups (concat (map (\<lambda>(m, p). if m = GET then [GET, HEAD] else [m])
                        (filter (\<lambda>(m, p). path_matches p (req_path req)) routes)))"

text \<open>
  The application from the first route on: the earlier routes, then the routing
  middleware, then, only when that calls \<^verbatim>\<open>next()\<close>, the later routes and the end of the
  chain: 404, or for an \<^verbatim>\<open>OPTIONS\<close> request that met routes with its path, the answer
  that lists their methods. (The recovery middleware at the head of the chain changes
  files and always calls \<^verbatim>\<open>next()\<close>.)
\<close>

definition dispatch :: "server_state \<Rightarrow> ensure_outcome \<Rightarrow> request \<Rightarrow> effect list" where
  "dispatch st ens req =
     (case find_route early_routes req of
        Some (m, p) \<Rightarrow> [Route m p]
      | None \<Rightarrow>
          (let effects = routing_middleware st ens req
           in if effects = [Next] then
                (case find_route late_routes req of
                   Some (m, p) \<Rightarrow> [Next, Route m p]
                 | None \<Rightarrow>
                     if req_method req = OPTIONS
                        \<and> options_methods (early_routes @ late_routes) req \<noteq> []
                     then [Next, AllowOptions (options_methods (early_routes @ late_routes) req)]
                     else [Next, NotFound])
              else effects))"

subsection \<open>WebSocket upgrades\<close>

text \<open>
  An upgrade request: the \<^verbatim>\<open>Host\<close> header, and \<^verbatim>\<open>req.url\<close> as \<^verbatim>\<open>new URL\<close> parses it,
  the path name and the query parameters.
\<close>

record upgrade_request =
  up_host :: "string option"
  up_pathname :: string
  up_search :: "(string \<times> string) list"

text \<open>\<^verbatim>\<open>req.headers.host?.split(':')[0]?.toLowerCase()\<close>\<close>

definition wsHost :: "upgrade_request \<Rightarrow> string option" where
  "wsHost req =
     (case up_host req of
        None \<Rightarrow> None
      | Some h \<Rightarrow> (case split CHR '':'' h of [] \<Rightarrow> None | x # _ \<Rightarrow> Some (toLowerCase x)))"

text \<open>\<^verbatim>\<open>server.on("upgrade", async (req, socket, head) => ...)\<close>\<close>

definition server_on_upgrade ::
  "env \<Rightarrow> server_state \<Rightarrow> ensure_outcome \<Rightarrow> upgrade_request \<Rightarrow> effect list" where
  "server_on_upgrade e st ens req =
     (if \<not> configured st then [SocketDestroy]
      else
        (let d = (case clientDomain st of Some d \<Rightarrow> d | None \<Rightarrow> [])
         in if truthy (clientDomain st) \<and> wsHost req = Some (''dev.'' @ d) \<and> devServerProcess st
            then [ProxyWs DEV_SERVER_TARGET (up_pathname req) (up_search req) []]
            else if truthy (clientDomain st) \<and> wsHost req \<noteq> Some (''gerald.'' @ d)
            then [SocketDestroy]
            else if prefix ''/openclaw'' (up_pathname req) \<or> up_pathname req = ''/''
            then EnsureGatewayRunning #
                 (case ens of
                    Threw err \<Rightarrow> [SocketDestroy]
                  | _ \<Rightarrow>
                      [ProxyWs GATEWAY_TARGET (up_pathname req)
                         (if map_of (up_search req) ''token'' = None
                          then up_search req @ [(''token'', OPENCLAW_GATEWAY_TOKEN e)]
                          else up_search req)
                         [(''Authorization'', ''Bearer '' @ OPENCLAW_GATEWAY_TOKEN e)]])
            else [ProxyWs DASHBOARD_TARGET (up_pathname req) (up_search req) []]))"

section \<open>server.js: the proxy's event handlers\<close>

datatype hval = HStr string | HNum nat

text \<open>
  The request going out to a backend: its headers (names in lower case; they start as
  the client's) and what has been written to its body.
\<close>

record outgoing =
  out_headers :: "(string \<times> hval) list"
  out_written :: "string list"

text \<open>The truthiness of a value and \<^verbatim>\<open>Object.keys(v).length\<close>.\<close>

definition js_truthy :: "json \<Rightarrow> bool" where
  "js_truthy v =
     (case v of
        JNull \<Rightarrow> False
      | JBool b \<Rightarrow> b
      | JNum n \<Rightarrow> n \<noteq> 0
      | JStr s \<Rightarrow> s \<noteq> []
      | JArr _ \<Rightarrow> True
      | JObj _ \<Rightarrow> True)"

definition object_keys_length :: "json \<Rightarrow> nat" where
  "object_keys_length v =
     (case v of
        JObj kvs \<Rightarrow> length kvs
      | JArr xs \<Rightarrow> length xs
      | JStr s \<Rightarrow> length s
      | _ \<Rightarrow> 0)"

text \<open>
  \<^verbatim>\<open>proxy.on("proxyReq", (proxyReq, req, res) => ...)\<close>. \<open>stringify\<close> is
  \<^verbatim>\<open>JSON.stringify\<close>; a string is the list of its UTF-8 bytes, so \<^verbatim>\<open>Buffer.byteLength\<close>
  is \<open>length\<close>.
\<close>

definition proxy_on_proxyReq :: "env \<Rightarrow> (json \<Rightarrow> string) \<Rightarrow> request \<Rightarrow> outgoing \<Rightarrow> outgoing" where
  "proxy_on_proxyReq e stringify req proxyReq =
     (let p1 = (if req_proxyTarget req = Some TagDashboard then proxyReq
                else proxyReq\<lparr>out_headers :=
                       AList.update ''authorization'' (HStr (''Bearer '' @ OPENCLAW_GATEWAY_TOKEN e))
                         (out_headers proxyReq)\<rparr>)
      in case req_body req of
           None \<Rightarrow> p1
         | Some body \<Rightarrow>
             if js_truthy body \<and> object_keys_length body > 0 then
               (let bodyData = stringify body
                in p1\<lparr>out_headers :=
                        AList.update ''content-length'' (HNum (length bodyData))
                          (AList.update ''content-type'' (HStr ''application/json'') (out_headers p1)),
                      out_written := out_written p1 @ [bodyData]\<rparr>)
             else p1)"

text \<open>
  A backend's response on its way to the client: headers (names in lower case) and
  the chunks of the body, as bytes, in the order they are written.
\<close>

record proxied_response =
  res_headers :: "(string \<times> hval) list"
  res_chunks :: "string list"

text \<open>
  \<^verbatim>\<open>buf.toString('utf8')\<close>: the bytes decoded as UTF-8 into a JavaScript string, here
  the list of its code points. \<open>utf8_decode\<close> is the decoder's state machine: \<open>needed\<close>
  continuation bytes are still to come for the code point \<open>cp\<close> collected so far, the
  next one between \<open>lower\<close> and \<open>upper\<close>. A byte that cannot start or continue a sequence
  becomes U+FFFD, and so does a sequence cut short; the byte that cut it short is read
  again as the start of the next one. Overlong forms, surrogates and code points above
  U+10FFFF are malformed.
\<close>

fun utf8_decode :: "nat \<Rightarrow> nat \<Rightarrow> nat \<Rightarrow> nat \<Rightarrow> nat list \<Rightarrow> nat list" where
  "utf8_decode needed cp lower upper [] = (if needed = 0 then [] else [0xFFFD])"
| "utf8_decode needed cp lower upper (b # bs) =
     (if needed \<noteq> 0 \<and> lower \<le> b \<and> b \<le> upper then
        (if needed = 1 then (cp * 64 + b mod 64) # utf8_decode 0 0 0x80 0xBF bs
         else utf8_decode (needed - 1) (cp * 64 + b mod 64) 0x80 0xBF bs)
      else
        (if needed \<noteq> 0 then [0xFFFD] else []) @
        (if b < 0x80 then b # utf8_decode 0 0 0x80 0xBF bs
         else if 0xC2 \<le> b \<and> b \<le> 0xDF then utf8_decode 1 (b mod 32) 0x80 0xBF bs
         else if 0xE0 \<le> b \<and> b \<le> 0xEF then
           utf8_decode 2 (b mod 16) (if b = 0xE0 then 0xA0 else 0x80)
             (if b = 0xED then 0x9F else 0xBF) bs
         else if 0xF0 \<le> b \<and> b \<le> 0xF4 then
           utf8_decode 3 (b mod 8) (if b = 0xF0 then 0x90 else 0x80)
             (if b = 0xF4 then 0x8F else 0xBF) bs
         else 0xFFFD # utf8_decode 0 0 0x80 0xBF bs))"

definition toString_utf8 :: "string \<Rightarrow> nat list" where
  "toString_utf8 bytes = utf8_decode 0 0 0x80 0xBF (map of_char bytes)"

text \<open>
  The bytes a JavaScript string is written as, which \<^verbatim>\<open>Buffer.byteLength(s)\<close> counts and
  \<^verbatim>\<open>res.end(s)\<close> sends: its UTF-8 encoding, a surrogate on its own written as U+FFFD.
\<close>

definition utf8_encode_point :: "nat \<Rightarrow> nat list" where
  "utf8_encode_point cp =
     (if cp < 0x80 then [cp]
      else if cp < 0x800 then [0xC0 + cp div 64, 0x80 + cp mod 64]
      else if 0xD800 \<le> cp \<and> cp \<le> 0xDFFF then [0xEF, 0xBF, 0xBD]
      else if cp < 0x10000 then [0xE0 + cp div 4096, 0x80 + (cp div 64) mod 64, 0x80 + cp mod 64]
      else [0xF0 + cp div 262144, 0x80 + (cp div 4096) mod 64, 0x80 + (cp div 64) mod 64,
            0x80 + cp mod 64])"

definition utf8_bytes :: "nat list \<Rightarrow> string" where
  "utf8_bytes s = map char_of (concat (map utf8_encode_point s))"

text \<open>A code point that is no surrogate; a string literal of the source, all ASCII.\<close>

definition scalar_value :: "nat \<Rightarrow> bool" where
  "scalar_value cp \<longleftrightarrow> cp < 0xD800 \<or> (0xE000 \<le> cp \<and> cp \<le> 0x10FFFF)"

definition js_text :: "string \<Rightarrow> nat list" where
  "js_text s = map of_char s"

definition robots_meta :: string where
  \<open>robots_meta = ''<head>'' @ [CHR 0x0A] @ ''  <meta name="robots" content="noindex, nofollow">''\<close>

text \<open>
  The patch of the page:
  \<^verbatim>\<open>if (!body.includes('name="robots"') && body.includes('<head>')) body = body.replace('<head>', ...)\<close>.
\<close>

definition inject_robots_meta :: "nat list \<Rightarrow> nat list" where
  \<open>inject_robots_meta body =
     (if \<not> str_includes body (js_text ''name="robots"'') \<and> str_includes body (js_text ''<head>'')
      then str_replace body (js_text ''<head>'') (js_text robots_meta)
      else body)\<close>

text \<open>
  The second \<^verbatim>\<open>proxy.on("proxyRes", ...)\<close> handler. For an HTML response of the dev
  server it replaces \<^verbatim>\<open>res.write\<close> and \<^verbatim>\<open>res.end\<close>: the chunks are collected, the bytes
  decoded into a string, the string patched, and the patched string goes out in one
  piece under a new \<^verbatim>\<open>Content-Length\<close>.
\<close>

definition proxy_on_proxyRes_dev :: "request \<Rightarrow> proxied_response \<Rightarrow> proxied_response" where
  "proxy_on_proxyRes_dev req proxyRes =
     (if req_proxyTarget req = Some TagDevServer then
        (let hs = AList.update ''x-robots-tag'' (HStr ''noindex, nofollow'') (res_headers proxyRes);
             contentType = (case map_of hs ''content-type'' of Some (HStr ct) \<Rightarrow> ct | _ \<Rightarrow> [])
         in if str_includes contentType ''text/html'' then
              (let body = inject_robots_meta (toString_utf8 (concat (res_chunks proxyRes)))
               in \<lparr>res_headers = AList.update ''content-length'' (HNum (length (utf8_bytes body))) hs,
                   res_chunks = [utf8_bytes body]\<rparr>)
            else proxyRes\<lparr>res_headers := hs\<rparr>)
      else proxyRes)"

section \<open>site-builder.js: static files\<close>

text \<open>
  \<^verbatim>\<open>path.join\<close> and \<^verbatim>\<open>path.normalize\<close> of Node's POSIX \<^verbatim>\<open>path\<close> module, on strings.
  \<open>normalize_step\<close> is what \<^verbatim>\<open>normalizeString\<close> does with one segment: empty segments
  and \<^verbatim>\<open>.\<close> are skipped, \<^verbatim>\<open>..\<close> removes the segment before it, or is kept when there is
  none to remove and the path is relative.
\<close>

fun join_segments :: "string list \<Rightarrow> string" where
  "join_segments [] = []"
| "join_segments [s] = s"
| "join_segments (s # t # ts) = s @ ''/'' @ join_segments (t # ts)"

definition normalize_step :: "bool \<Rightarrow> string list \<Rightarrow> string \<Rightarrow> string list" where
  "normalize_step allowAboveRoot res seg =
     (if seg = [] \<or> seg = ''.'' then res
      else if seg = ''..'' then
        (if res \<noteq> [] \<and> last res \<noteq> ''..'' then butlast res
         else if allowAboveRoot then res @ [''..'']
         else res)
      else res @ [seg])"

definition normalizeString :: "string \<Rightarrow> bool \<Rightarrow> string" where
  "normalizeString p allowAboveRoot =
     join_segments (foldl (normalize_step allowAboveRoot) [] (split CHR ''/'' p))"

definition path_normalize :: "string \<Rightarrow> string" where
  "path_normalize p =
     (if p = [] then ''.''
      else
        (let isAbsolute = (hd p = CHR ''/'');
             trailingSeparator = (last p = CHR ''/'');
             q = normalizeString p (\<not> isAbsolute)
         in if q = [] then (if isAbsolute then ''/'' else if trailingSeparator then ''./'' else ''.'')
            else (if isAbsolute then ''/'' else []) @ q @ (if trailingSeparator then ''/'' else [])))"

definition path_join :: "string list \<Rightarrow> string" where
  "path_join args =
     (let parts = filter (\<lambda>a. a \<noteq> []) args
      in if parts = [] then ''.'' else path_normalize (join_segments parts))"

text \<open>A path segment that normalisation keeps as it is.\<close>

definition clean_segment :: "string \<Rightarrow> bool" where
  "clean_segment s \<longleftrightarrow> s \<noteq> [] \<and> s \<noteq> ''.'' \<and> s \<noteq> ''..'' \<and> CHR ''/'' \<notin> set s"

text \<open>
  What \<^verbatim>\<open>serveStaticSite\<close> asks of the platform: \<^verbatim>\<open>fs.existsSync(p) && fs.statSync(p).isFile()\<close>,
  \<^verbatim>\<open>fs.existsSync(p)\<close>, \<^verbatim>\<open>path.extname\<close> and \<^verbatim>\<open>process.cwd()\<close>. Its answers: 403 with the
  text "Forbidden"; \<open>SendFile status p\<close>, the call \<^verbatim>\<open>res.status(status).sendFile(p)\<close>; 404
  with the text "Not found". \<open>decoded\<close> is \<^verbatim>\<open>decodeURIComponent(req.path)\<close>, \<open>None\<close> when
  that throws.
\<close>

record platform =
  isFile :: "string \<Rightarrow> bool"
  existsSync :: "string \<Rightarrow> bool"
  extname :: "string \<Rightarrow> string"
  cwd :: string

datatype static_response = DecodeError | Forbidden | SendFile nat string | NotFoundText

definition serveStaticSite :: "platform \<Rightarrow> string \<Rightarrow> string option \<Rightarrow> static_response" where
  "serveStaticSite os dir decoded =
     (case decoded of
        None \<Rightarrow> DecodeError
      | Some reqPath \<Rightarrow>
          (let filePath = path_join [dir, if reqPath = ''/'' then ''index.html'' else reqPath];
               dirIndexPath = path_join [filePath, ''index.html''];
               htmlPath = filePath @ ''.html'';
               notFoundPath = path_join [dir, ''404.html''];
               placeholderPath = path_join [cwd os, ''src'', ''public'', ''placeholder.html''];
               indexPath = path_join [dir, ''index.html''];
               isApiPath = (prefix ''/api/'' reqPath \<or> prefix ''/_astro/'' reqPath);
               isStaticAsset = (extname os reqPath \<noteq> [] \<and> \<not> suffix ''.html'' reqPath)
           in if \<not> prefix dir filePath then Forbidden
              else if isFile os filePath then SendFile 200 filePath
              else if isFile os dirIndexPath then SendFile 200 dirIndexPath
              else if isFile os htmlPath then SendFile 200 htmlPath
              else if existsSync os notFoundPath then SendFile 404 notFoundPath
              else if existsSync os placeholderPath then SendFile 200 placeholderPath
              else if existsSync os indexPath \<and> \<not> isApiPath \<and> \<not> isStaticAsset
              then SendFile 200 indexPath
              else NotFoundText))"

text \<open>A platform on which exactly the listed files exist, run from \<^verbatim>\<open>/app\<close>.\<close>

definition example_os :: "string list \<Rightarrow> platform" where
  "example_os files =
     \<lparr>isFile = (\<lambda>p. p \<in> set files), existsSync = (\<lambda>p. p \<in> set files),
      extname = (\<lambda>p. []), cwd = ''/app''\<rparr>"

section \<open>server.js: shutdown\<close>

text \<open>
  The process at shutdown. \<open>trace\<close> records what has been done, in order: a call of
  \<^verbatim>\<open>autoSaveDevChanges\<close>, a git command it runs, \<^verbatim>\<open>kill("SIGTERM")\<close> on a child, and
  \<^verbatim>\<open>process.exit(0)\<close>. \<open>saves\<close> are the calls of \<^verbatim>\<open>autoSaveDevChanges\<close> in flight, each
  at the command it awaits; \<open>children\<close> are the managed children whose handle is set.
  The environment says whether \<^verbatim>\<open>DEV_DIR\<close> is a git repository and whether
  \<^verbatim>\<open>getGitHubToken()\<close> gives a token.
\<close>

datatype signal = SIGTERM | SIGINT

datatype child = GatewayChild | DashboardChild | DevServerChild | ProdServerChild

datatype git = GitStatus | GitConfigEmail | GitConfigName | GitAdd | GitCommit
  | GitRemoteGetUrl | GitRemoteSetUrl | GitPush

datatype shutdown_event = SaveStarted | Git git | Kill child | ProcessExit

datatype save_stage = AwaitStatus | AwaitConfigEmail | AwaitConfigName | AwaitAdd | AwaitCommit
  | AwaitRemoteGet | AwaitRemoteSet | AwaitPush | AwaitRestoreGet | AwaitRestoreSet

record shutdown_env =
  devIsGitRepo :: bool
  githubToken :: bool

record node_process =
  exited :: bool
  trace :: "shutdown_event list"
  saves :: "save_stage list"
  children :: "child list"

text \<open>
  \<^verbatim>\<open>output.trim().length > 0\<close> fails: only white space and line terminators (those
  below 256, the characters of the model's strings).
\<close>

definition is_blank :: "string \<Rightarrow> bool" where
  "is_blank s \<longleftrightarrow>
     (\<forall>c \<in> set s. c \<in> {CHR '' '', CHR 0x09, CHR 0x0A, CHR 0x0B, CHR 0x0C, CHR 0x0D, CHR 0xA0})"

text \<open>
  \<^verbatim>\<open>autoSaveDevChanges\<close> (site-builder.js) between two of its awaits: the command it
  awaited has resolved with (code, output); it runs the next command and awaits it, or
  returns (\<open>None\<close>). Its own errors end the save and are not thrown.
\<close>

fun save_resume :: "shutdown_env \<Rightarrow> save_stage \<Rightarrow> int \<times> string \<Rightarrow> shutdown_event list \<times> save_stage option" where
  "save_resume e AwaitStatus (code, output) =
     (if code \<noteq> 0 then ([], None)
      else if is_blank output then ([], None)
      else ([Git GitConfigEmail], Some AwaitConfigEmail))"
| "save_resume e AwaitConfigEmail r = ([Git GitConfigName], Some AwaitConfigName)"
| "save_resume e AwaitConfigName r = ([Git GitAdd], Some AwaitAdd)"
| "save_resume e AwaitAdd (code, output) =
     (if code \<noteq> 0 then ([], None) else ([Git GitCommit], Some AwaitCommit))"
| "save_resume e AwaitCommit (code, output) =
     (if code \<noteq> 0 then ([], None)
      else if githubToken e then ([Git GitRemoteGetUrl], Some AwaitRemoteGet)
      else ([Git GitPush], Some AwaitPush))"
| "save_resume e AwaitRemoteGet (code, output) =
     (if code = 0 then ([Git GitRemoteSetUrl], Some AwaitRemoteSet)
      else ([Git GitPush], Some AwaitPush))"
| "save_resume e AwaitRemoteSet r = ([Git GitPush], Some AwaitPush)"
| "save_resume e AwaitPush r =
     (if githubToken e then ([Git GitRemoteGetUrl], Some AwaitRestoreGet) else ([], None))"
| "save_resume e AwaitRestoreGet (code, output) =
     (if code = 0 then ([Git GitRemoteSetUrl], Some AwaitRestoreSet) else ([], None))"
| "save_resume e AwaitRestoreSet r = ([], None)"

text \<open>
  \<^verbatim>\<open>autoSaveDevChanges\<close> run on its own, its commands resolving with the given results in
  order: the git commands it runs, and whether it has returned.
\<close>

fun save_from :: "shutdown_env \<Rightarrow> save_stage \<Rightarrow> (int \<times> string) list \<Rightarrow> shutdown_event list \<times> bool" where
  "save_from e st [] = ([], False)"
| "save_from e st (r # rs) =
     (case save_resume e st r of
        (evs, None) \<Rightarrow> (evs, True)
      | (evs, Some st') \<Rightarrow> (case save_from e st' rs of (evs', returned) \<Rightarrow> (evs @ evs', returned)))"

definition autoSaveDevChanges :: "shutdown_env \<Rightarrow> (int \<times> string) list \<Rightarrow> shutdown_event list \<times> bool" where
  "autoSaveDevChanges e rs =
     (if \<not> devIsGitRepo e then ([], True)
      else (case save_from e AwaitStatus rs of (evs, returned) \<Rightarrow> (Git GitStatus # evs, returned)))"

definition process_exit :: "node_process \<Rightarrow> node_process" where
  "process_exit p = p\<lparr>exited := True, trace := trace p @ [ProcessExit]\<rparr>"

text \<open>
  The listener registered for both signals,
  \<^verbatim>\<open>async () => { await autoSaveDevChanges(); process.exit(0); }\<close>, up to its first
  suspension: the save is called and runs to its first \<^verbatim>\<open>await\<close>; the flag says that the
  save returned at once, so that only the listener's own continuation is pending.
\<close>

definition save_handler :: "shutdown_env \<Rightarrow> node_process \<Rightarrow> node_process \<times> bool" where
  "save_handler e p =
     (if devIsGitRepo e
      then (p\<lparr>trace := trace p @ [SaveStarted, Git GitStatus], saves := saves p @ [AwaitStatus]\<rparr>, False)
      else (p\<lparr>trace := trace p @ [SaveStarted]\<rparr>, True))"

text \<open>
  The second \<^verbatim>\<open>SIGTERM\<close> listener, at the end of server.js: it signals the gateway, the
  dashboard and the dev server, where held, and calls \<^verbatim>\<open>process.exit(0)\<close>.
\<close>

definition kill_handler :: "node_process \<Rightarrow> node_process" where
  "kill_handler p =
     process_exit
       (p\<lparr>trace := trace p @
            map Kill (filter (\<lambda>c. c \<in> set (children p)) [GatewayChild, DashboardChild, DevServerChild])\<rparr>)"

text \<open>
  A signal arrives: Node calls the listeners of that signal one after the other, in
  the order they were registered, before any pending continuation runs. \<^verbatim>\<open>SIGTERM\<close> has
  both listeners, \<^verbatim>\<open>SIGINT\<close> only the first.
\<close>

definition on_signal :: "shutdown_env \<Rightarrow> signal \<Rightarrow> node_process \<Rightarrow> node_process" where
  "on_signal e sg p =
     (if exited p then p
      else (case save_handler e p of
              (p1, returned) \<Rightarrow>
                if sg = SIGTERM then kill_handler p1
                else if returned then process_exit p1
                else p1))"

text \<open>
  The command awaited by the \<open>i\<close>-th save in flight resolves. When the save returns, the
  listener that awaited it calls \<^verbatim>\<open>process.exit(0)\<close>.
\<close>

definition on_cmd_done :: "shutdown_env \<Rightarrow> nat \<Rightarrow> int \<times> string \<Rightarrow> node_process \<Rightarrow> node_process" where
  "on_cmd_done e i r p =
     (if exited p \<or> i \<ge> length (saves p) then p
      else (case save_resume e (saves p ! i) r of
              (evs, Some st) \<Rightarrow> p\<lparr>trace := trace p @ evs, saves := (saves p)[i := st]\<rparr>
            | (evs, None) \<Rightarrow>
                process_exit (p\<lparr>trace := trace p @ evs,
                                saves := take i (saves p) @ drop (Suc i) (saves p)\<rparr>)))"

datatype shutdown_input = Signal signal | CmdDone nat "int \<times> string"

fun shutdown_step :: "shutdown_env \<Rightarrow> shutdown_input \<Rightarrow> node_process \<Rightarrow> node_process" where
  "shutdown_step e (Signal sg) p = on_signal e sg p"
| "shutdown_step e (CmdDone i r) p = on_cmd_done e i r p"

definition shutdown_run :: "shutdown_env \<Rightarrow> shutdown_input list \<Rightarrow> node_process \<Rightarrow> node_process" where
  "shutdown_run e ins p = fold (shutdown_step e) ins p"

text \<open>A running process with all four children, and a dev site with changes to save.\<close>

definition running_process :: node_process where
  "running_process =
     \<lparr>exited = False, trace = [], saves = [],
      children = [GatewayChild, DashboardChild, DevServerChild, ProdServerChild]\<rparr>"

definition dirty_repo :: shutdown_env where
  "dirty_repo = \<lparr>devIsGitRepo = True, githubToken = False\<rparr>"

text \<open>A supervisor that has spawned one child, and two configuration CLIs.\<close>

definition one_child :: gateway_module where
  "one_child =
     \<lparr>gatewayProc = Some 0, gatewayStarting = None, lastGatewayToken = Some ''s3cret'',
      crashCount = 0, lastCrashTime = 0, spawnLog = [''s3cret'']\<rparr>"

definition cli_ignores :: cli where
  "cli_ignores n args w = (0, w)"

definition cli_fails :: cli where
  "cli_fails n args w = (1, w)"

text \<open>Deployments, requests and a dev-server response used in the examples.\<close>

definition unconfigured_server :: server_state where
  "unconfigured_server =
     \<lparr>configured = False, clientDomain = Some ''example.com'', devServerProcess = False,
      prodSSR = False, prodServerProcess = False, devDistExists = True\<rparr>"

definition example_server :: server_state where
  "example_server =
     \<lparr>configured = True, clientDomain = Some ''example.com'', devServerProcess = False,
      prodSSR = False, prodServerProcess = False, devDistExists = True\<rparr>"

definition example_request :: "http_method \<Rightarrow> string \<Rightarrow> string \<Rightarrow> request" where
  "example_request m host p =
     \<lparr>req_method = m, req_hostname = Some host, req_path = p, req_body = None,
      req_proxyTarget = None\<rparr>"

definition example_upgrade :: upgrade_request where
  "example_upgrade =
     \<lparr>up_host = Some ''Gerald.example.com:443'', up_pathname = ''/openclaw/chat'', up_search = []\<rparr>"

definition dev_html_response :: proxied_response where
  "dev_html_response =
     \<lparr>res_headers = [(''content-type'', HStr ''text/html; charset=utf-8''),
                     (''content-length'', HStr ''41'')],
      res_chunks = [''<html><head>'', ''</head><body>hi</body></html>'']\<rparr>"

text \<open>
  Two more pages of the dev server: one whose \<^verbatim>\<open>head\<close> tag has an attribute, and one in
  Latin-1, its \<^verbatim>\<open>\u00e9\<close> the single byte \<open>0xE9\<close>.
\<close>

definition dev_html_lang_response :: proxied_response where
  \<open>dev_html_lang_response =
     \<lparr>res_headers = [(''content-type'', HStr ''text/html'')],
      res_chunks = [''<html><head lang="en"></head><body>hi</body></html>'']\<rparr>\<close>

definition dev_latin1_response :: proxied_response where
  "dev_latin1_response =
     \<lparr>res_headers = [(''content-type'', HStr ''text/html; charset=iso-8859-1''),
                     (''content-length'', HStr ''11'')],
      res_chunks = [''<p>caf'' @ [CHR 0xE9] @ ''</p>'']\<rparr>"

chapter \<open>Properties\<close>

section \<open>Crash handling\<close>

lemma gatewayProc_on_exit_crash:
  assumes "truthy (lastGatewayToken m)"
    and "signal \<noteq> Some ''SIGTERM''" and "signal \<noteq> Some ''SIGINT''" and "code \<noteq> Some 0"
  shows "gatewayProc_on_exit code signal now m =
     (let n = (if now - lastCrashTime m > CRASH_WINDOW_MS then 0 else crashCount m) + 1
      in (m\<lparr>gatewayProc := None, crashCount := n, lastCrashTime := now\<rparr>,
          if n \<le> MAX_CRASH_RESTARTS then ScheduleRestart (min (2000 * 2 ^ (n - 1)) 30000)
          else TooManyCrashes))"
  using assms by (simp add: gatewayProc_on_exit_def Let_def)

lemma exit_decisions_chain:
  assumes "truthy (lastGatewayToken m)"
    and "\<forall>(code, signal, now) \<in> set es.
           signal \<noteq> Some ''SIGTERM'' \<and> signal \<noteq> Some ''SIGINT'' \<and> code \<noteq> Some 0"
    and "no_gap_over_window (lastCrashTime m) (map (\<lambda>(code, signal, now). now) es)"
  shows "exit_decisions es m =
     map (\<lambda>k. if crashCount m + k \<le> MAX_CRASH_RESTARTS
               then ScheduleRestart (min (2000 * 2 ^ (crashCount m + k - 1)) 30000)
               else TooManyCrashes) [1..<Suc (length es)]"
  using assms
proof (induction es arbitrary: m)
  case Nil
  then show ?case by simp
next
  case (Cons ev es)
  obtain code signal now where ev: "ev = (code, signal, now)" by (cases ev)
  let ?m' = "m\<lparr>gatewayProc := None, crashCount := crashCount m + 1, lastCrashTime := now\<rparr>"
  from Cons.prems ev have step:
    "gatewayProc_on_exit code signal now m =
       (?m', if crashCount m + 1 \<le> MAX_CRASH_RESTARTS
             then ScheduleRestart (min (2000 * 2 ^ (crashCount m + 1 - 1)) 30000)
             else TooManyCrashes)"
    by (simp add: gatewayProc_on_exit_crash Let_def)
  have "exit_decisions es ?m' =
     map (\<lambda>k. if crashCount ?m' + k \<le> MAX_CRASH_RESTARTS
               then ScheduleRestart (min (2000 * 2 ^ (crashCount ?m' + k - 1)) 30000)
               else TooManyCrashes) [1..<Suc (length es)]"
    using Cons.prems ev by (intro Cons.IH) simp_all
  moreover have "[1..<Suc (length (ev # es))] = 1 # map Suc [1..<Suc (length es)]"
    by (simp add: upt_conv_Cons map_Suc_upt del: upt_Suc)
  ultimately show ?case
    using step ev by (simp add: comp_def del: upt_Suc)
qed

text \<open>
  Claim C3, as amended. The crash counter is not scoped to a rolling window: it starts
  again from 0 only when an exit comes more than \<open>CRASH_WINDOW_MS\<close> (five minutes) after
  the crash before it. Take exits of the gateway that are unexpected (the signal is
  neither SIGTERM nor SIGINT and the code is not 0), the first at time \<open>t0\<close> and each
  later one no more than five minutes after the one before it. The counter starts again
  from 0 when \<open>t0\<close> is more than five minutes after the last recorded crash and goes on
  from its old value otherwise; the \<open>k\<close>-th of these exits brings it to \<open>before + k\<close>,
  however long the whole chain lasts. While that count is at most
  \<open>MAX_CRASH_RESTARTS = 5\<close> the handler schedules a restart after
  \<open>min (2000 * 2 ^ (count - 1)) 30000\<close> milliseconds; above 5 it schedules nothing.
\<close>

theorem crash_loop_backoff:
  assumes "truthy (lastGatewayToken m)"
    and "\<forall>(code, signal, now) \<in> set ((code0, signal0, t0) # es).
           signal \<noteq> Some ''SIGTERM'' \<and> signal \<noteq> Some ''SIGINT'' \<and> code \<noteq> Some 0"
    and "no_gap_over_window t0 (map (\<lambda>(code, signal, now). now) es)"
  shows "exit_decisions ((code0, signal0, t0) # es) m =
     (let before = (if t0 - lastCrashTime m > CRASH_WINDOW_MS then 0 else crashCount m)
      in map (\<lambda>k. if before + k \<le> MAX_CRASH_RESTARTS
                   then ScheduleRestart (min (2000 * 2 ^ (before + k - 1)) 30000)
                   else TooManyCrashes) [1..<Suc (Suc (length es))])"
proof -
  let ?b = "if t0 - lastCrashTime m > CRASH_WINDOW_MS then 0 else crashCount m"
  let ?m' = "m\<lparr>gatewayProc := None, crashCount := ?b + 1, lastCrashTime := t0\<rparr>"
  from assms have step:
    "gatewayProc_on_exit code0 signal0 t0 m =
       (?m', if ?b + 1 \<le> MAX_CRASH_RESTARTS
             then ScheduleRestart (min (2000 * 2 ^ (?b + 1 - 1)) 30000)
             else TooManyCrashes)"
    by (simp add: gatewayProc_on_exit_crash Let_def)
  have rest: "exit_decisions es ?m' =
     map (\<lambda>k. if crashCount ?m' + k \<le> MAX_CRASH_RESTARTS
               then ScheduleRestart (min (2000 * 2 ^ (crashCount ?m' + k - 1)) 30000)
               else TooManyCrashes) [1..<Suc (length es)]"
    using assms by (intro exit_decisions_chain) simp_all
  have "[1..<Suc (Suc (length es))] = 1 # map Suc [1..<Suc (length es)]"
    by (simp add: upt_conv_Cons map_Suc_upt del: upt_Suc)
  then show ?thesis
    using step rest by (simp add: comp_def Let_def del: upt_Suc)
qed

text \<open>
  Six exits with code 1 inside five minutes: restarts after 2, 4, 8, 16 and 30 seconds,
  and none after the sixth.
\<close>

theorem crash_loop_backoff_witness:
  "truthy (lastGatewayToken one_child)
   \<and> no_gap_over_window 1000000 [1020000, 1040000, 1060000, 1200000, 1290000]
   \<and> exit_decisions
       [(Some 1, None, 1000000), (Some 1, None, 1020000), (Some 1, None, 1040000),
        (Some 1, None, 1060000), (Some 1, None, 1200000), (Some 1, None, 1290000)]
       one_child
     = [ScheduleRestart 2000, ScheduleRestart 4000, ScheduleRestart 8000,
        ScheduleRestart 16000, ScheduleRestart 30000, TooManyCrashes]"
  using crash_loop_backoff [of one_child "Some 1" None 1000000
      "[(Some 1, None, 1020000), (Some 1, None, 1040000),
        (Some 1, None, 1060000), (Some 1, None, 1200000), (Some 1, None, 1290000)]"]
  by (simp add: one_child_def truthy_def CRASH_WINDOW_MS_def MAX_CRASH_RESTARTS_def
      upt_conv_Cons del: upt_Suc)

text \<open>
  Claim C3 as stated fails. Six crashes 299 seconds apart, 25 minutes from the first to
  the last: no five minutes hold more than two of them, yet the counter reaches 6 and
  the sixth crash is not followed by a restart.
\<close>

theorem crash_loop_backoff_counterexample:
  "exit_decisions
       [(Some 1, None, 1000000), (Some 1, None, 1299000), (Some 1, None, 1598000),
        (Some 1, None, 1897000), (Some 1, None, 2196000), (Some 1, None, 2495000)]
       one_child
     = [ScheduleRestart 2000, ScheduleRestart 4000, ScheduleRestart 8000,
        ScheduleRestart 16000, ScheduleRestart 30000, TooManyCrashes]
   \<and> map (spec_rolling_window_count [1000000, 1299000, 1598000, 1897000, 2196000, 2495000])
         [1000000, 1299000, 1598000, 1897000, 2196000, 2495000]
     = [1, 2, 2, 2, 2, 2]"
  by (simp add: gatewayProc_on_exit_def one_child_def truthy_def CRASH_WINDOW_MS_def
      MAX_CRASH_RESTARTS_def spec_rolling_window_count_def Let_def)

section \<open>Starting the gateway\<close>

lemma startGateway_finish_cases:
  "startGateway_finish tok code m w = (r, m', w') \<Longrightarrow>
     w' = (if code \<noteq> 0 then directFallback tok w else w) \<and>
     (if readConfigToken w' = Inr (Some (JStr tok))
      then r = Inr (Spawned (length (spawnLog m))) \<and>
           m' = m\<lparr>gatewayProc := Some (length (spawnLog m)), lastGatewayToken := Some tok,
                    spawnLog := spawnLog m @ [tok]\<rparr>
      else (\<exists>err. r = Inl err) \<and> m' = m)"
  by (auto simp: startGateway_finish_def Let_def split: sum.splits if_splits)

lemma isConfigured_fixInvalidConfig [simp]:
  "isConfigured (fixInvalidConfig e w) = isConfigured w"
  by (simp add: fixInvalidConfig_def isConfigured_def split: option.splits file_content.splits)


text \<open>
  Claim C2. Whatever the configuration CLI does: when \<^verbatim>\<open>startGateway(TOKEN)\<close> spawns the
  gateway, the token read back from the configuration file as it then stands is the
  string \<open>TOKEN\<close>; and when a start is attempted (no child is held) and the token read
  back is anything else, or cannot be read, \<^verbatim>\<open>startGateway\<close> throws and leaves the
  supervisor as it was: nothing is spawned and no child is recorded.
\<close>

theorem startGateway_token_consistency:
  assumes "startGateway e c tok m w = (r, m', w')"
  shows "(\<forall>p. r = Inr (Spawned p) \<longrightarrow>
            readConfigToken w' = Inr (Some (JStr tok)) \<and> gatewayProc m = None \<and>
            gatewayProc m' = Some p \<and> spawnLog m' = spawnLog m @ [tok])
       \<and> (gatewayProc m = None \<and> readConfigToken w' \<noteq> Inr (Some (JStr tok)) \<longrightarrow>
            (\<exists>err. r = Inl err) \<and> m' = m)"
  using assms
  by (auto simp: startGateway_def startGateway_begin_def
      split: if_splits prod.splits dest!: startGateway_finish_cases)

lemma directFallback_stale:
  "directFallback ''s3cret'' (config_with_token ''stale'') = config_with_token ''s3cret''"
proof -
  have "split CHR ''.'' ''gateway.mode'' = [''gateway'', ''mode'']"
    and "split CHR ''.'' ''gateway.auth.token'' = [''gateway'', ''auth'', ''token'']"
    by simp_all
  then show ?thesis
    by (simp add: directFallback_def directConfigSet_def typeof_object_def
        config_with_token_def Let_def del: split.simps)
qed

lemma runCmds_cli_ignores: "runCmds cli_ignores cmds (n, w) = (n + length cmds, w)"
  by (induction cmds arbitrary: n) (simp_all add: runCmd_def cli_ignores_def)

lemma runCmds_cli_fails: "runCmds cli_fails cmds (n, w) = (n + length cmds, w)"
  by (induction cmds arbitrary: n) (simp_all add: runCmd_def cli_fails_def)

lemma configSync_cli_ignores: "configSync e cli_ignores tok w = (0, w)"
  by (simp add: configSync_def runCmd_def runCmds_cli_ignores cli_ignores_def Let_def)

lemma configSync_cli_fails: "configSync e cli_fails tok w = (1, w)"
  by (simp add: configSync_def runCmd_def runCmds_cli_fails cli_fails_def Let_def)

lemma startGateway_begin_example:
  "startGateway_begin example_env (gmod (initial unconfigured)) (config_with_token ''stale'')
     = (BeginAwait, config_with_token ''stale'')"
  by (simp add: startGateway_begin_def initial_def example_env_def config_with_token_def
      isConfigured_def fixInvalidConfig_def)

lemma readConfigToken_config_with_token:
  "readConfigToken (config_with_token tok) = Inr (Some (JStr tok))"
  by (simp add: readConfigToken_def get_prop_def config_with_token_def)

text \<open>
  A CLI that reports success and writes nothing leaves a stale token: the start throws
  and spawns nothing. A CLI that fails makes the wrapper write the token itself: the
  read-back matches and the gateway is spawned.
\<close>

theorem startGateway_token_consistency_witness:
  "startGateway example_env cli_ignores ''s3cret'' (gmod (initial unconfigured))
       (config_with_token ''stale'')
     = (Inl TokenMismatch, gmod (initial unconfigured), config_with_token ''stale'')
   \<and> readConfigToken (config_with_token ''stale'') = Inr (Some (JStr ''stale''))
   \<and> startGateway example_env cli_fails ''s3cret'' (gmod (initial unconfigured))
       (config_with_token ''stale'')
     = (Inr (Spawned 0),
        (gmod (initial unconfigured))
          \<lparr>gatewayProc := Some 0, lastGatewayToken := Some ''s3cret'', spawnLog := [''s3cret'']\<rparr>,
        config_with_token ''s3cret'')
   \<and> readConfigToken (config_with_token ''s3cret'') = Inr (Some (JStr ''s3cret''))"
proof -
  have stale: "startGateway example_env cli_ignores ''s3cret'' (gmod (initial unconfigured))
       (config_with_token ''stale'')
     = (Inl TokenMismatch, gmod (initial unconfigured), config_with_token ''stale'')"
    by (simp add: startGateway_def startGateway_begin_example configSync_cli_ignores
        startGateway_finish_def readConfigToken_config_with_token)
  have written: "startGateway example_env cli_fails ''s3cret'' (gmod (initial unconfigured))
       (config_with_token ''stale'')
     = (Inr (Spawned 0),
        (gmod (initial unconfigured))
          \<lparr>gatewayProc := Some 0, lastGatewayToken := Some ''s3cret'', spawnLog := [''s3cret'']\<rparr>,
        config_with_token ''s3cret'')"
    by (simp add: startGateway_def startGateway_begin_example configSync_cli_fails
        startGateway_finish_def directFallback_stale readConfigToken_config_with_token)
      (simp add: initial_def)
  from startGateway_token_consistency [OF stale] startGateway_token_consistency [OF written]
    stale written
  show ?thesis by (simp add: readConfigToken_config_with_token)
qed

section \<open>Single-flight start\<close>

text \<open>
  Claim C10. With no configuration file, a call of \<^verbatim>\<open>ensureGatewayRunning\<close> completes
  with \<^verbatim>\<open>{ ok: false, reason: "not configured" }\<close> (a returned value, not a throw) and
  changes nothing else: not the module variables (child handle, in-flight start, spawn
  log), not the world, not the callers that are waiting.
\<close>

theorem ensureGatewayRunning_not_configured:
  assumes "\<not> isConfigured (wld s)"
  shows "ensureGatewayRunning e c s = s\<lparr>outcomes := outcomes s @ [(c, NotConfigured)]\<rparr>"
  using assms by (simp add: ensureGatewayRunning_def)

theorem ensureGatewayRunning_not_configured_witness:
  "\<not> isConfigured (wld (initial unconfigured))
   \<and> ensureGatewayRunning example_env 7 (initial unconfigured)
       = (initial unconfigured)\<lparr>outcomes := [(7, NotConfigured)]\<rparr>
   \<and> gmod (ensureGatewayRunning example_env 7 (initial unconfigured)) = gmod (initial unconfigured)"
  using ensureGatewayRunning_not_configured [of "initial unconfigured" example_env 7]
  by (simp add: initial_def unconfigured_def isConfigured_def)

subsection \<open>What a run without restart timers keeps\<close>
















subsection \<open>One start and its callers\<close>










lemmas supervisor_eval =
  run_def ensureGatewayRunning_def syncDone_def readyResult_def settle_def childExit_def
  childError_def timerFire_def restartSyncDone_def gatewayProc_on_exit_def truthy_def
  MAX_CRASH_RESTARTS_def CRASH_WINDOW_MS_def startGateway_begin_def startGateway_finish_def
  readConfigToken_def get_prop_def fixInvalidConfig_def isConfigured_def initial_def
  example_env_def config_with_token_def Let_def

text \<open>
  After a spawn that failed the child handle is cleared again: caller 2 does not get
  \<^verbatim>\<open>{ ok: true }\<close> at once but awaits the start in flight, and shares its outcome.
\<close>

lemma call_after_spawn_error_awaits:
  "outcomes (run example_env
      [Call 1, SyncDone 0 0 (config_with_token ''s3cret''), ChildError 0, Call 2, Ready 0 False]
      (initial (config_with_token ''s3cret'')))
     = [(1, Threw NotReady), (2, Threw NotReady)]"
  by (simp add: supervisor_eval)


section \<open>Routing\<close>

lemma find_route_status:
  "method_matches (req_method req) GET \<Longrightarrow> req_path req = ''/status'' \<Longrightarrow>
     find_route early_routes req = Some (GET, ''/status'')"
  by (simp add: find_route_def early_routes_def path_matches_def method_matches_def
      toLowerCase_def toLowerCase_char_def Let_def suffix_to_prefix)

lemma find_route_webhook:
  "req_method req = POST \<Longrightarrow> req_path req = ''/api/webhook/github'' \<Longrightarrow>
     find_route early_routes req = Some (POST, ''/api/webhook/github'')"
  by (simp add: find_route_def early_routes_def path_matches_def method_matches_def
      toLowerCase_def toLowerCase_char_def Let_def suffix_to_prefix)

lemma find_route_rebuild:
  "req_method req = POST \<Longrightarrow> req_path req = ''/api/rebuild'' \<Longrightarrow>
     find_route early_routes req = Some (POST, ''/api/rebuild'')"
  by (simp add: find_route_def early_routes_def path_matches_def method_matches_def
      toLowerCase_def toLowerCase_char_def Let_def suffix_to_prefix)

lemma allow_listed_not_setup: "allow_listed p \<Longrightarrow> \<not> prefix ''/setup'' p"
  by (auto simp: allow_listed_def)

text \<open>
  An \<^verbatim>\<open>OPTIONS\<close> request for \<^verbatim>\<open>/status\<close> passes the route, whose methods it does not have,
  and the routing middleware, and is answered at the end of the chain.
\<close>

lemma options_status:
  "dispatch example_server OkTrue (example_request OPTIONS ''dev.example.com'' ''/status'')
     = [Next, AllowOptions [GET, HEAD]]"
  by (simp add: dispatch_def find_route_def options_methods_def early_routes_def late_routes_def
      path_matches_def method_matches_def toLowerCase_def toLowerCase_char_def Let_def
      suffix_to_prefix routing_middleware_def allow_listed_def truthy_def example_server_def
      example_request_def)

text \<open>
  Claim C5, as amended. \<^verbatim>\<open>GET\<close> (or \<^verbatim>\<open>HEAD\<close>) \<^verbatim>\<open>/status\<close>, \<^verbatim>\<open>POST /api/webhook/github\<close> and
  \<^verbatim>\<open>POST /api/rebuild\<close> are taken by their own handlers for every host name and whether
  or not the deployment is configured: those routes are registered before the routing
  middleware. A request with one of the three paths that does reach the routing
  middleware (another method) is never routed by host name: it is redirected to
  \<^verbatim>\<open>/setup\<close> when the deployment is not configured, passed on with \<^verbatim>\<open>next()\<close> when a
  client domain is set, and otherwise handled like any request without a client domain.
\<close>

theorem allow_list_routing:
  "(method_matches (req_method req) GET \<and> req_path req = ''/status''
      \<longrightarrow> dispatch st ens req = [Route GET ''/status''])
   \<and> (req_method req = POST \<and> req_path req = ''/api/webhook/github''
      \<longrightarrow> dispatch st ens req = [Route POST ''/api/webhook/github''])
   \<and> (req_method req = POST \<and> req_path req = ''/api/rebuild''
      \<longrightarrow> dispatch st ens req = [Route POST ''/api/rebuild''])
   \<and> (allow_listed (req_path req)
      \<longrightarrow> routing_middleware st ens req =
            (if \<not> configured st then [Redirect ''/setup'']
             else if truthy (clientDomain st) then [Next]
             else ensure_then_proxy st ens))"
  by (auto simp: dispatch_def find_route_status find_route_webhook find_route_rebuild
      routing_middleware_def Let_def dest: allow_listed_not_setup)

theorem allow_list_routing_witness:
  "dispatch unconfigured_server OkTrue (example_request GET ''dev.example.com'' ''/status'')
     = [Route GET ''/status'']
   \<and> dispatch unconfigured_server OkTrue
       (example_request POST ''www.example.com'' ''/api/webhook/github'')
     = [Route POST ''/api/webhook/github'']
   \<and> dispatch example_server OkTrue (example_request POST ''gerald.example.com'' ''/api/rebuild'')
     = [Route POST ''/api/rebuild'']
   \<and> routing_middleware example_server OkTrue (example_request PUT ''dev.example.com'' ''/status'')
     = [Next]
   \<and> routing_middleware unconfigured_server OkTrue (example_request PUT ''dev.example.com'' ''/status'')
     = [Redirect ''/setup'']"
  using allow_list_routing [of "example_request GET ''dev.example.com'' ''/status''"
      unconfigured_server OkTrue]
    allow_list_routing [of "example_request POST ''www.example.com'' ''/api/webhook/github''"
      unconfigured_server OkTrue]
    allow_list_routing [of "example_request POST ''gerald.example.com'' ''/api/rebuild''"
      example_server OkTrue]
    allow_list_routing [of "example_request PUT ''dev.example.com'' ''/status''"
      example_server OkTrue]
    allow_list_routing [of "example_request PUT ''dev.example.com'' ''/status''"
      unconfigured_server OkTrue]
  by (simp add: example_request_def method_matches_def allow_listed_def truthy_def
      example_server_def unconfigured_server_def)

text \<open>
  Claim C5 as stated fails: on a deployment that is not configured, a \<^verbatim>\<open>GET\<close> of the path
  \<^verbatim>\<open>/api/rebuild\<close> matches no route, reaches the routing middleware and is redirected to
  \<^verbatim>\<open>/setup\<close>.
\<close>

theorem allow_list_routing_counterexample:
  "dispatch unconfigured_server OkTrue (example_request GET ''example.com'' ''/api/rebuild'')
     = [Redirect ''/setup'']"
  by (simp add: dispatch_def find_route_def early_routes_def path_matches_def method_matches_def
      toLowerCase_def toLowerCase_char_def Let_def suffix_to_prefix routing_middleware_def
      unconfigured_server_def example_request_def)

section \<open>WebSocket upgrades\<close>

text \<open>
  Claim C6. An upgrade handled by the gateway branch (the handler awaits
  \<^verbatim>\<open>ensureGatewayRunning\<close>, or proxies to the gateway) does exactly this: it first awaits
  \<^verbatim>\<open>ensureGatewayRunning(OPENCLAW_GATEWAY_TOKEN)\<close>, the call the HTTP middleware makes;
  if that throws it destroys the socket and does nothing else; otherwise it then
  proxies the upgrade to the gateway, with the token as a query parameter (unless one
  is present) and as a bearer header. An upgrade on a configured deployment for host
  \<^verbatim>\<open>gerald.<clientDomain>\<close> with a path under \<^verbatim>\<open>/openclaw\<close> is handled by that branch.
\<close>

theorem upgrade_starts_gateway_first:
  "(EnsureGatewayRunning \<in> set (server_on_upgrade e st ens req)
      \<or> (\<exists>p q h. ProxyWs GATEWAY_TARGET p q h \<in> set (server_on_upgrade e st ens req))
     \<longrightarrow> server_on_upgrade e st ens req =
          EnsureGatewayRunning #
          (case ens of
             Threw err \<Rightarrow> [SocketDestroy]
           | _ \<Rightarrow> [ProxyWs GATEWAY_TARGET (up_pathname req)
                     (if map_of (up_search req) ''token'' = None
                      then up_search req @ [(''token'', OPENCLAW_GATEWAY_TOKEN e)]
                      else up_search req)
                     [(''Authorization'', ''Bearer '' @ OPENCLAW_GATEWAY_TOKEN e)]]))
   \<and> (configured st \<and> clientDomain st = Some d \<and> d \<noteq> [] \<and> wsHost req = Some (''gerald.'' @ d)
        \<and> prefix ''/openclaw'' (up_pathname req)
     \<longrightarrow> EnsureGatewayRunning \<in> set (server_on_upgrade e st ens req))"
  by (auto simp: server_on_upgrade_def Let_def truthy_def split: if_splits ensure_outcome.splits)

text \<open>
  An upgrade for \<^verbatim>\<open>Gerald.example.com:443/openclaw/chat\<close>: the socket is destroyed when
  the start fails, and the upgrade is proxied with the token when it succeeds.
\<close>

theorem upgrade_starts_gateway_first_witness:
  "server_on_upgrade example_env example_server (Threw NotReady) example_upgrade
     = [EnsureGatewayRunning, SocketDestroy]
   \<and> server_on_upgrade example_env example_server OkTrue example_upgrade
     = [EnsureGatewayRunning,
        ProxyWs GATEWAY_TARGET ''/openclaw/chat'' [(''token'', ''s3cret'')]
          [(''Authorization'', ''Bearer s3cret'')]]"
proof -
  have h: "configured example_server \<and> clientDomain example_server = Some ''example.com''
      \<and> ''example.com'' \<noteq> [] \<and> wsHost example_upgrade = Some (''gerald.'' @ ''example.com'')
      \<and> prefix ''/openclaw'' (up_pathname example_upgrade)"
    by (simp add: example_server_def example_upgrade_def wsHost_def toLowerCase_def
        toLowerCase_char_def)
  from upgrade_starts_gateway_first [of example_env example_server "Threw NotReady"
      example_upgrade "''example.com''"]
    upgrade_starts_gateway_first [of example_env example_server OkTrue
      example_upgrade "''example.com''"] h
  show ?thesis
    by (simp add: example_upgrade_def example_env_def)
qed

section \<open>Responses of the dev site\<close>

lemma dev_host_not_apex: "''dev.'' @ d \<noteq> d"
proof
  assume "''dev.'' @ d = d"
  then have "length (''dev.'' @ d) = length d" by (rule arg_cong)
  then show False by simp
qed

lemma dev_host_distinct:
  "Some (''dev.'' @ d) \<noteq> Some d" "Some (''dev.'' @ d) \<noteq> Some (''www.'' @ d)"
  using dev_host_not_apex [of d] by simp_all

lemma str_includes_sublist: "str_includes s sub \<longleftrightarrow> sublist sub s"
  by (induction s) (auto simp: sublist_Cons_right)

lemma str_includes_append:
  "str_includes rep x \<Longrightarrow> str_includes (pre @ rep @ post) x"
  unfolding str_includes_sublist sublist_def by (metis append.assoc)

lemma str_replace_split:
  "str_includes s pat \<Longrightarrow>
     \<exists>pre post. s = pre @ pat @ post \<and> str_replace s pat rep = pre @ rep @ post"
proof (induction s)
  case Nil
  then show ?case by simp
next
  case (Cons x xs)
  show ?case
  proof (cases "prefix pat (x # xs)")
    case True
    then obtain post where post: "x # xs = pat @ post" by (auto simp: prefix_def)
    have "str_replace (x # xs) pat rep = rep @ drop (length pat) (x # xs)"
      using True by simp
    also have "drop (length pat) (x # xs) = post"
      by (simp only: post) simp
    finally have "x # xs = [] @ pat @ post \<and> str_replace (x # xs) pat rep = [] @ rep @ post"
      using post by simp
    then show ?thesis by blast
  next
    case False
    with Cons.prems have "str_includes xs pat" by simp
    from Cons.IH [OF this] obtain pre post
      where "xs = pre @ pat @ post" "str_replace xs pat rep = pre @ rep @ post" by blast
    then have "x # xs = (x # pre) @ pat @ post
        \<and> str_replace (x # xs) pat rep = (x # pre) @ rep @ post"
      using False by simp
    then show ?thesis by blast
  qed
qed

lemma robots_meta_names_robots:
  \<open>str_includes (js_text robots_meta) (js_text ''name="robots"'')\<close>
  by (simp add: robots_meta_def js_text_def)

lemma injected_names_robots:
  assumes \<open>str_includes body (js_text ''<head>'')\<close>
  shows \<open>str_includes (inject_robots_meta body) (js_text ''name="robots"'')\<close>
proof (cases \<open>str_includes body (js_text ''name="robots"'')\<close>)
  case True
  then show ?thesis by (simp add: inject_robots_meta_def)
next
  case False
  from str_replace_split [OF assms] obtain pre post
    where "str_replace body (js_text ''<head>'') (js_text robots_meta)
             = pre @ js_text robots_meta @ post" by blast
  then show ?thesis
    using False assms str_includes_append [OF robots_meta_names_robots]
    by (simp add: inject_robots_meta_def)
qed

subsection \<open>Decoding what was encoded\<close>

lemma mod_offset: "a < n \<Longrightarrow> (q * n + a) mod n = (a::nat)"
  by simp

lemma lead_mod:
  "a < 32 \<Longrightarrow> (0xC0 + a) mod 32 = (a::nat)"
  "a < 16 \<Longrightarrow> (0xE0 + a) mod 16 = (a::nat)"
  "a < 8 \<Longrightarrow> (0xF0 + a) mod 8 = (a::nat)"
  "a < 64 \<Longrightarrow> (0x80 + a) mod 64 = (a::nat)"
  using mod_offset [of a 32 6] mod_offset [of a 16 14] mod_offset [of a 8 30] mod_offset [of a 64 2]
  by simp_all

lemma dec_enc_1:
  assumes "cp < 0x80"
  shows "utf8_decode 0 0 0x80 0xBF (utf8_encode_point cp @ bs) = cp # utf8_decode 0 0 0x80 0xBF bs"
    and "\<forall>x \<in> set (utf8_encode_point cp). x < 256"
  using assms by (simp_all add: utf8_encode_point_def)

lemma dec_enc_2:
  assumes "0x80 \<le> cp" "cp < 0x800"
  shows "utf8_decode 0 0 0x80 0xBF (utf8_encode_point cp @ bs) = cp # utf8_decode 0 0 0x80 0xBF bs"
    and "\<forall>x \<in> set (utf8_encode_point cp). x < 256"
proof -
  define a where "a = cp div 64"
  define b where "b = cp mod 64"
  have cp: "a * 64 + b = cp" and b: "b < 64" by (simp_all add: a_def b_def)
  have a: "2 \<le> a" "a < 32" using assms cp b by linarith+
  have e: "utf8_encode_point cp = [0xC0 + a, 0x80 + b]"
    using assms by (simp add: utf8_encode_point_def a_def b_def)
  show "utf8_decode 0 0 0x80 0xBF (utf8_encode_point cp @ bs) = cp # utf8_decode 0 0 0x80 0xBF bs"
    unfolding e using a b cp by (simp add: lead_mod)
  show "\<forall>x \<in> set (utf8_encode_point cp). x < 256"
    unfolding e using a b by simp
qed

lemma dec_enc_3:
  assumes "0x800 \<le> cp" "cp < 0x10000" "scalar_value cp"
  shows "utf8_decode 0 0 0x80 0xBF (utf8_encode_point cp @ bs) = cp # utf8_decode 0 0 0x80 0xBF bs"
    and "\<forall>x \<in> set (utf8_encode_point cp). x < 256"
proof -
  define q where "q = cp div 64"
  define a where "a = q div 64"
  define b where "b = q mod 64"
  define c where "c = cp mod 64"
  have cp: "q * 64 + c = cp" and c: "c < 64" by (simp_all add: q_def c_def)
  have q: "a * 64 + b = q" and b: "b < 64" by (simp_all add: a_def b_def)
  have d: "cp div 4096 = a"
    using div_mult2_eq [of cp 64 64] by (simp add: a_def q_def)
  have a: "a < 16" using assms cp c q b by linarith
  have lo: "a = 0 \<longrightarrow> 32 \<le> b" using assms cp c q b by linarith
  have hi: "a = 13 \<longrightarrow> b \<le> 31" using assms cp c q b unfolding scalar_value_def by linarith
  have "\<not> (0xD800 \<le> cp \<and> cp \<le> 0xDFFF)"
    using assms unfolding scalar_value_def by linarith
  then have ns: "(0xD800 \<le> cp \<and> cp \<le> 0xDFFF) = False"
    by blast
  have e: "utf8_encode_point cp = [0xE0 + a, 0x80 + b, 0x80 + c]"
    using assms(1,2) ns d by (auto simp add: utf8_encode_point_def q_def [symmetric] b_def c_def)
  have v: "(a * 64 + b) * 64 + c = cp" using cp q by simp
  show "utf8_decode 0 0 0x80 0xBF (utf8_encode_point cp @ bs) = cp # utf8_decode 0 0 0x80 0xBF bs"
    unfolding e using a b c lo hi v by (simp add: lead_mod)
  show "\<forall>x \<in> set (utf8_encode_point cp). x < 256"
    unfolding e using a b c by simp
qed

lemma dec_enc_4:
  assumes "0x10000 \<le> cp" "cp \<le> 0x10FFFF"
  shows "utf8_decode 0 0 0x80 0xBF (utf8_encode_point cp @ bs) = cp # utf8_decode 0 0 0x80 0xBF bs"
    and "\<forall>x \<in> set (utf8_encode_point cp). x < 256"
proof -
  define q where "q = cp div 64"
  define r where "r = q div 64"
  define a where "a = r div 64"
  define b where "b = r mod 64"
  define c where "c = q mod 64"
  define d where "d = cp mod 64"
  have cp: "q * 64 + d = cp" and d: "d < 64" by (simp_all add: q_def d_def)
  have q: "r * 64 + c = q" and c: "c < 64" by (simp_all add: r_def c_def)
  have r: "a * 64 + b = r" and b: "b < 64" by (simp_all add: a_def b_def)
  have d1: "cp div 4096 = r"
    using div_mult2_eq [of cp 64 64] by (simp add: r_def q_def)
  have d2: "cp div 262144 = a"
    using div_mult2_eq [of cp 4096 64] d1 by (simp add: a_def)
  have a: "a \<le> 4" using assms cp d q c r b by linarith
  have lo: "a = 0 \<longrightarrow> 16 \<le> b" using assms cp d q c r b by linarith
  have hi: "a = 4 \<longrightarrow> b \<le> 15" using assms cp d q c r b by linarith
  have e: "utf8_encode_point cp = [0xF0 + a, 0x80 + b, 0x80 + c, 0x80 + d]"
    using assms d1 d2 by (simp add: utf8_encode_point_def q_def [symmetric] b_def c_def d_def)
  have v: "((a * 64 + b) * 64 + c) * 64 + d = cp" using cp q r by simp
  show "utf8_decode 0 0 0x80 0xBF (utf8_encode_point cp @ bs) = cp # utf8_decode 0 0 0x80 0xBF bs"
    unfolding e using a b c d lo hi v by (simp add: lead_mod)
  show "\<forall>x \<in> set (utf8_encode_point cp). x < 256"
    unfolding e using a b c d by simp
qed

lemma dec_enc:
  assumes "scalar_value cp"
  shows "utf8_decode 0 0 0x80 0xBF (utf8_encode_point cp @ bs) = cp # utf8_decode 0 0 0x80 0xBF bs"
    and "\<forall>x \<in> set (utf8_encode_point cp). x < 256"
proof -
  consider "cp < 0x80" | "0x80 \<le> cp" "cp < 0x800" | "0x800 \<le> cp" "cp < 0x10000"
    | "0x10000 \<le> cp" "cp \<le> 0x10FFFF"
    using assms unfolding scalar_value_def by linarith
  then have "utf8_decode 0 0 0x80 0xBF (utf8_encode_point cp @ bs) = cp # utf8_decode 0 0 0x80 0xBF bs
      \<and> (\<forall>x \<in> set (utf8_encode_point cp). x < 256)"
  proof cases
    case 1
    then show ?thesis using dec_enc_1 by blast
  next
    case 2
    then show ?thesis using dec_enc_2 by blast
  next
    case 3
    then show ?thesis using dec_enc_3 assms by blast
  next
    case 4
    then show ?thesis using dec_enc_4 by blast
  qed
  then show "utf8_decode 0 0 0x80 0xBF (utf8_encode_point cp @ bs) = cp # utf8_decode 0 0 0x80 0xBF bs"
    and "\<forall>x \<in> set (utf8_encode_point cp). x < 256" by blast+
qed

text \<open>Well-formed UTF-8, the encoding of a text without surrogates, decodes to that text.\<close>

lemma toString_utf8_bytes:
  assumes "\<forall>cp \<in> set s. scalar_value cp"
  shows "toString_utf8 (utf8_bytes s) = s"
proof -
  have bytes: "\<forall>b \<in> set (concat (map utf8_encode_point s)). b < 256"
    using assms dec_enc(2) by auto
  have "map of_char (map char_of bs) = bs" if "\<forall>b \<in> set bs. b < (256::nat)" for bs
    using that by (induction bs) simp_all
  from this [OF bytes] have "toString_utf8 (utf8_bytes s)
      = utf8_decode 0 0 0x80 0xBF (concat (map utf8_encode_point s))"
    by (simp add: toString_utf8_def utf8_bytes_def)
  also have "\<dots> = s"
    using assms by (induction s) (simp_all add: dec_enc(1))
  finally show ?thesis .
qed

text \<open>
  A body that is not UTF-8 does not come through as it was: the Latin-1 page of 11
  bytes leaves with 13, its \<open>0xE9\<close> turned into the three bytes of U+FFFD.
\<close>

lemma non_utf8_body_altered:
  "proxy_on_proxyRes_dev
      ((example_request GET ''dev.example.com'' ''/'')\<lparr>req_proxyTarget := Some TagDevServer\<rparr>)
      dev_latin1_response
     = \<lparr>res_headers = [(''content-type'', HStr ''text/html; charset=iso-8859-1''),
                       (''content-length'', HNum 13),
                       (''x-robots-tag'', HStr ''noindex, nofollow'')],
        res_chunks = [''<p>caf'' @ [CHR 0xEF, CHR 0xBF, CHR 0xBD] @ ''</p>'']\<rparr>"
  by (simp add: proxy_on_proxyRes_dev_def dev_latin1_response_def example_request_def
      inject_robots_meta_def toString_utf8_def utf8_bytes_def utf8_encode_point_def js_text_def
      char_of_eq_iff Let_def)

text \<open>
  Claim C7, as amended. (1) Every response the routing middleware produces under its
  dev-subdomain rule carries \<^verbatim>\<open>X-Robots-Tag: noindex, nofollow\<close>: the rule applies to host
  \<^verbatim>\<open>dev.<clientDomain>\<close> when the deployment is configured (or the path is under
  \<^verbatim>\<open>/setup\<close>) and the path is not one of the three allow-listed ones, and it covers
  \<^verbatim>\<open>/robots.txt\<close>, the proxied dev server and the static fallback. (2) For a proxied
  response tagged \<^verbatim>\<open>dev-server\<close> the header is set again on the backend's response, and
  when its content type includes \<^verbatim>\<open>text/html\<close> the whole body is buffered, decoded as
  UTF-8 and patched, and the patched text goes out in one piece, encoded as UTF-8,
  under a \<^verbatim>\<open>Content-Length\<close> equal to the number of its bytes. The patch puts the robots
  meta tag after the first \<^verbatim>\<open><head>\<close>, when the text contains the very string
  \<^verbatim>\<open><head>\<close> and does not already contain \<^verbatim>\<open>name="robots"\<close>, and changes nothing
  otherwise; a text that contains \<^verbatim>\<open><head>\<close> leaves with \<^verbatim>\<open>name="robots"\<close> in it. A body
  that is well-formed UTF-8, the encoding of a text \<open>t\<close>, leaves as the encoding of the
  patched \<open>t\<close>. (3) A response with any other tag is not touched by this handler.
\<close>

theorem dev_responses_noindex:
  \<open>(clientDomain st = Some d \<and> d \<noteq> [] \<and> map_option toLowerCase (req_hostname req) = Some (''dev.'' @ d)
      \<and> (configured st \<or> prefix ''/setup'' (req_path req)) \<and> \<not> allow_listed (req_path req)
     \<longrightarrow> routing_middleware st ens req =
          (if req_path req = ''/robots.txt''
           then [SetHeader ''X-Robots-Tag'' ''noindex, nofollow'', SetType ''text/plain'', Send RobotsTxt]
           else SetHeader ''X-Robots-Tag'' ''noindex, nofollow'' #
                (if devServerProcess st
                 then [SetProxyTarget TagDevServer, ProxyWeb DEV_SERVER_TARGET]
                 else [ServeStaticSite (if devDistExists st then DEV_DIST_DIR else DEV_DIR)])))
   \<and> (req_proxyTarget req = Some TagDevServer
     \<longrightarrow> map_of (res_headers (proxy_on_proxyRes_dev req proxyRes)) ''x-robots-tag''
            = Some (HStr ''noindex, nofollow'')
         \<and> (\<forall>ct. map_of (res_headers proxyRes) ''content-type'' = Some (HStr ct)
                \<and> str_includes ct ''text/html''
              \<longrightarrow> (\<exists>body'. res_chunks (proxy_on_proxyRes_dev req proxyRes) = [utf8_bytes body']
                    \<and> map_of (res_headers (proxy_on_proxyRes_dev req proxyRes)) ''content-length''
                        = Some (HNum (length (utf8_bytes body')))
                    \<and> body' =
                        (let body = toString_utf8 (concat (res_chunks proxyRes))
                         in if str_includes body (js_text ''name="robots"'')
                               \<or> \<not> str_includes body (js_text ''<head>'')
                            then body
                            else str_replace body (js_text ''<head>'') (js_text robots_meta))
                    \<and> (str_includes (toString_utf8 (concat (res_chunks proxyRes))) (js_text ''<head>'')
                          \<longrightarrow> str_includes body' (js_text ''name="robots"'')))
                 \<and> (\<forall>t. (\<forall>cp \<in> set t. scalar_value cp) \<and> concat (res_chunks proxyRes) = utf8_bytes t
                       \<longrightarrow> res_chunks (proxy_on_proxyRes_dev req proxyRes)
                             = [utf8_bytes (inject_robots_meta t)])))
   \<and> (req_proxyTarget req \<noteq> Some TagDevServer
     \<longrightarrow> proxy_on_proxyRes_dev req proxyRes = proxyRes)\<close>
proof (intro conjI impI allI)
  assume a: "clientDomain st = Some d \<and> d \<noteq> []
      \<and> map_option toLowerCase (req_hostname req) = Some (''dev.'' @ d)
      \<and> (configured st \<or> prefix ''/setup'' (req_path req)) \<and> \<not> allow_listed (req_path req)"
  then have h: "map_option toLowerCase (req_hostname req) \<noteq> Some d"
      "map_option toLowerCase (req_hostname req) \<noteq> Some (''www.'' @ d)"
    using dev_host_distinct [of d] by auto
  from a h show "routing_middleware st ens req =
          (if req_path req = ''/robots.txt''
           then [SetHeader ''X-Robots-Tag'' ''noindex, nofollow'', SetType ''text/plain'', Send RobotsTxt]
           else SetHeader ''X-Robots-Tag'' ''noindex, nofollow'' #
                (if devServerProcess st
                 then [SetProxyTarget TagDevServer, ProxyWeb DEV_SERVER_TARGET]
                 else [ServeStaticSite (if devDistExists st then DEV_DIST_DIR else DEV_DIR)]))"
    by (auto simp: routing_middleware_def truthy_def Let_def)
next
  assume t: "req_proxyTarget req = Some TagDevServer"
  show "map_of (res_headers (proxy_on_proxyRes_dev req proxyRes)) ''x-robots-tag''
            = Some (HStr ''noindex, nofollow'')"
    using t by (simp add: proxy_on_proxyRes_dev_def Let_def update_conv')
next
  fix ct
  assume t: "req_proxyTarget req = Some TagDevServer"
    and ct: "map_of (res_headers proxyRes) ''content-type'' = Some (HStr ct)
                \<and> str_includes ct ''text/html''"
  define decoded where "decoded = toString_utf8 (concat (res_chunks proxyRes))"
  have out: "proxy_on_proxyRes_dev req proxyRes =
      \<lparr>res_headers = AList.update ''content-length'' (HNum (length (utf8_bytes (inject_robots_meta decoded))))
          (AList.update ''x-robots-tag'' (HStr ''noindex, nofollow'') (res_headers proxyRes)),
       res_chunks = [utf8_bytes (inject_robots_meta decoded)]\<rparr>"
    using t ct by (simp add: proxy_on_proxyRes_dev_def Let_def update_conv' decoded_def)
  have inj: \<open>inject_robots_meta decoded =
      (if str_includes decoded (js_text ''name="robots"'') \<or> \<not> str_includes decoded (js_text ''<head>'')
       then decoded else str_replace decoded (js_text ''<head>'') (js_text robots_meta))\<close>
    by (simp add: inject_robots_meta_def)
  have \<open>res_chunks (proxy_on_proxyRes_dev req proxyRes) = [utf8_bytes (inject_robots_meta decoded)]
      \<and> map_of (res_headers (proxy_on_proxyRes_dev req proxyRes)) ''content-length''
          = Some (HNum (length (utf8_bytes (inject_robots_meta decoded))))
      \<and> inject_robots_meta decoded =
          (let body = toString_utf8 (concat (res_chunks proxyRes))
           in if str_includes body (js_text ''name="robots"'')
                 \<or> \<not> str_includes body (js_text ''<head>'')
              then body
              else str_replace body (js_text ''<head>'') (js_text robots_meta))
      \<and> (str_includes (toString_utf8 (concat (res_chunks proxyRes))) (js_text ''<head>'')
            \<longrightarrow> str_includes (inject_robots_meta decoded) (js_text ''name="robots"''))\<close>
    using injected_names_robots [of decoded] inj
    by (simp add: out update_conv' Let_def decoded_def [symmetric])
  then show \<open>\<exists>body'. res_chunks (proxy_on_proxyRes_dev req proxyRes) = [utf8_bytes body']
      \<and> map_of (res_headers (proxy_on_proxyRes_dev req proxyRes)) ''content-length''
          = Some (HNum (length (utf8_bytes body')))
      \<and> body' =
          (let body = toString_utf8 (concat (res_chunks proxyRes))
           in if str_includes body (js_text ''name="robots"'')
                 \<or> \<not> str_includes body (js_text ''<head>'')
              then body
              else str_replace body (js_text ''<head>'') (js_text robots_meta))
      \<and> (str_includes (toString_utf8 (concat (res_chunks proxyRes))) (js_text ''<head>'')
            \<longrightarrow> str_includes body' (js_text ''name="robots"''))\<close>
    by blast
next
  fix ct t
  assume tag: "req_proxyTarget req = Some TagDevServer"
    and ct: "map_of (res_headers proxyRes) ''content-type'' = Some (HStr ct)
                \<and> str_includes ct ''text/html''"
    and wf: "(\<forall>cp \<in> set t. scalar_value cp) \<and> concat (res_chunks proxyRes) = utf8_bytes t"
  then have "toString_utf8 (concat (res_chunks proxyRes)) = t"
    using toString_utf8_bytes [of t] by simp
  then show "res_chunks (proxy_on_proxyRes_dev req proxyRes) = [utf8_bytes (inject_robots_meta t)]"
    using tag ct by (simp add: proxy_on_proxyRes_dev_def Let_def update_conv')
next
  assume "req_proxyTarget req \<noteq> Some TagDevServer"
  then show "proxy_on_proxyRes_dev req proxyRes = proxyRes"
    by (simp add: proxy_on_proxyRes_dev_def)
qed

text \<open>
  The static fallback for \<^verbatim>\<open>Dev.Example.com\<close> carries the header; an HTML page of the dev
  server gets the header, the meta tag and the new length; the same page tagged
  \<^verbatim>\<open>prod-server\<close> passes unchanged.
\<close>

theorem dev_responses_noindex_witness:
  \<open>routing_middleware example_server OkTrue (example_request GET ''Dev.Example.com'' ''/'')
     = [SetHeader ''X-Robots-Tag'' ''noindex, nofollow'', ServeStaticSite DEV_DIST_DIR]
   \<and> proxy_on_proxyRes_dev
        ((example_request GET ''dev.example.com'' ''/'')\<lparr>req_proxyTarget := Some TagDevServer\<rparr>)
        dev_html_response
     = \<lparr>res_headers = [(''content-type'', HStr ''text/html; charset=utf-8''),
                       (''content-length'', HNum 92),
                       (''x-robots-tag'', HStr ''noindex, nofollow'')],
        res_chunks = [''<html><head>'' @ [CHR 0x0A] @
          ''  <meta name="robots" content="noindex, nofollow"></head><body>hi</body></html>'']\<rparr>
   \<and> proxy_on_proxyRes_dev
        ((example_request GET ''example.com'' ''/'')\<lparr>req_proxyTarget := Some TagProdServer\<rparr>)
        dev_html_response
     = dev_html_response\<close>
proof -
  have a: "clientDomain example_server = Some ''example.com'' \<and> ''example.com'' \<noteq> []
      \<and> map_option toLowerCase (req_hostname (example_request GET ''Dev.Example.com'' ''/''))
          = Some (''dev.'' @ ''example.com'')
      \<and> (configured example_server
          \<or> prefix ''/setup'' (req_path (example_request GET ''Dev.Example.com'' ''/'')))
      \<and> \<not> allow_listed (req_path (example_request GET ''Dev.Example.com'' ''/''))"
    by (simp add: example_server_def example_request_def toLowerCase_def toLowerCase_char_def
        allow_listed_def)
  have b: \<open>proxy_on_proxyRes_dev
        ((example_request GET ''dev.example.com'' ''/'')\<lparr>req_proxyTarget := Some TagDevServer\<rparr>)
        dev_html_response
     = \<lparr>res_headers = [(''content-type'', HStr ''text/html; charset=utf-8''),
                       (''content-length'', HNum 92),
                       (''x-robots-tag'', HStr ''noindex, nofollow'')],
        res_chunks = [''<html><head>'' @ [CHR 0x0A] @
          ''  <meta name="robots" content="noindex, nofollow"></head><body>hi</body></html>'']\<rparr>\<close>
    by (simp add: proxy_on_proxyRes_dev_def dev_html_response_def example_request_def
        inject_robots_meta_def toString_utf8_def utf8_bytes_def utf8_encode_point_def js_text_def
        robots_meta_def char_of_eq_iff Let_def)
  from dev_responses_noindex [of example_server "''example.com''"
      "(example_request GET ''example.com'' ''/'')\<lparr>req_proxyTarget := Some TagProdServer\<rparr>"
      OkTrue dev_html_response]
    dev_responses_noindex [of example_server "''example.com''"
      "example_request GET ''Dev.Example.com'' ''/''" OkTrue] a b
  show ?thesis
    by (simp add: example_request_def example_server_def)
qed

text \<open>
  Claim C7 as stated fails, in two ways. A request for host \<^verbatim>\<open>dev.example.com\<close> on a
  deployment that is not configured is answered with the redirect to \<^verbatim>\<open>/setup\<close>, and no
  \<^verbatim>\<open>X-Robots-Tag\<close> header is set. And an HTML page of the dev server whose \<^verbatim>\<open>head\<close> tag
  has an attribute, and which has no robots meta tag, gets none: it leaves as it came,
  without \<^verbatim>\<open>name="robots"\<close>.
\<close>

theorem dev_responses_noindex_counterexample:
  \<open>routing_middleware unconfigured_server OkTrue (example_request GET ''dev.example.com'' ''/'')
     = [Redirect ''/setup'']
   \<and> res_chunks (proxy_on_proxyRes_dev
        ((example_request GET ''dev.example.com'' ''/'')\<lparr>req_proxyTarget := Some TagDevServer\<rparr>)
        dev_html_lang_response)
     = [''<html><head lang="en"></head><body>hi</body></html>'']
   \<and> \<not> str_includes ''<html><head lang="en"></head><body>hi</body></html>'' ''name="robots"''\<close>
  by (simp add: routing_middleware_def unconfigured_server_def example_request_def
      proxy_on_proxyRes_dev_def dev_html_lang_response_def
      inject_robots_meta_def toString_utf8_def utf8_bytes_def utf8_encode_point_def js_text_def
      char_of_eq_iff Let_def)

section \<open>Request bodies\<close>

text \<open>
  A parsed body with at least one key (or element) is written again: serialised, with
  the JSON content type and the length of what is written.
\<close>

lemma proxyReq_body_reinjected:
  assumes "req_body req = Some body" and "js_truthy body" and "object_keys_length body > 0"
  shows "out_written (proxy_on_proxyReq e stringify req proxyReq)
           = out_written proxyReq @ [stringify body]
       \<and> map_of (out_headers (proxy_on_proxyReq e stringify req proxyReq)) ''content-length''
           = Some (HNum (length (stringify body)))
       \<and> map_of (out_headers (proxy_on_proxyReq e stringify req proxyReq)) ''content-type''
           = Some (HStr ''application/json'')"
  using assms by (simp add: proxy_on_proxyReq_def Let_def update_conv')

text \<open>
  Claim C8 fails on the code. A \<^verbatim>\<open>POST\<close> whose JSON body is the empty object has been
  parsed and consumed by \<^verbatim>\<open>express.json()\<close>, but \<^verbatim>\<open>Object.keys(req.body).length > 0\<close> is
  false: the handler writes nothing, and the outgoing request keeps the client's
  \<^verbatim>\<open>Content-Length: 2\<close> with no body behind it.
\<close>

theorem proxyReq_empty_body_not_forwarded:
  "proxy_on_proxyReq e stringify
     \<lparr>req_method = POST, req_hostname = Some ''gerald.example.com'', req_path = ''/api/tasks'',
      req_body = Some (JObj []), req_proxyTarget = Some TagDashboard\<rparr>
     \<lparr>out_headers = [(''content-type'', HStr ''application/json''), (''content-length'', HStr ''2'')],
      out_written = []\<rparr>
   = \<lparr>out_headers = [(''content-type'', HStr ''application/json''), (''content-length'', HStr ''2'')],
      out_written = []\<rparr>"
  by (simp add: proxy_on_proxyReq_def js_truthy_def object_keys_length_def)

section \<open>Static files\<close>

lemma split_not_Nil [simp]: "split c s \<noteq> []"
  by (induction s) (auto split: list.splits)

lemma split_no_sep: "c \<notin> set s \<Longrightarrow> split c s = [s]"
  by (induction s) (auto split: list.splits)

lemma split_append_sep: "split c (a @ c # b) = split c a @ split c b"
proof (induction a)
  case Nil
  then show ?case by simp
next
  case (Cons x a)
  then show ?case
    by (cases "split c a") (auto split: list.splits)
qed

lemma split_segments_no_sep: "s \<in> set (split c p) \<Longrightarrow> c \<notin> set s"
  by (induction p arbitrary: s) (auto split: list.splits if_splits)

lemma join_segments_snoc:
  "join_segments (S @ [t]) = (if S = [] then t else join_segments S @ ''/'' @ t)"
  by (induction S rule: join_segments.induct) auto

lemma join_segments_Nil_iff:
  "\<forall>s \<in> set S. s \<noteq> [] \<Longrightarrow> join_segments S = [] \<longleftrightarrow> S = []"
  by (induction S rule: join_segments.induct) auto

lemma split_join_segments:
  "S \<noteq> [] \<Longrightarrow> \<forall>s \<in> set S. CHR ''/'' \<notin> set s \<Longrightarrow> split CHR ''/'' (join_segments S) = S"
proof (induction S rule: join_segments.induct)
  case 1
  then show ?case by simp
next
  case (2 s)
  then show ?case by (simp add: split_no_sep)
next
  case (3 s t ts)
  have "split CHR ''/'' (s @ CHR ''/'' # join_segments (t # ts))
      = split CHR ''/'' s @ split CHR ''/'' (join_segments (t # ts))"
    by (rule split_append_sep)
  with 3 show ?case by (simp add: split_no_sep)
qed

lemma foldl_step_clean:
  "\<forall>s \<in> set res. clean_segment s \<Longrightarrow> \<forall>s \<in> set segs. CHR ''/'' \<notin> set s \<Longrightarrow>
     \<forall>s \<in> set (foldl (normalize_step False) res segs). clean_segment s"
proof (induction segs arbitrary: res)
  case Nil
  then show ?case by simp
next
  case (Cons seg segs)
  have "\<forall>s \<in> set (normalize_step False res seg). clean_segment s"
    using Cons.prems by (auto simp: normalize_step_def clean_segment_def dest: in_set_butlastD)
  then show ?case using Cons by simp
qed

lemma foldl_step_clean_segments:
  "\<forall>s \<in> set S. clean_segment s \<Longrightarrow> foldl (normalize_step False) res S = res @ S"
  by (induction S arbitrary: res) (auto simp: normalize_step_def clean_segment_def)

lemma foldl_step_empty [simp]:
  "foldl (normalize_step False) res ([] # segs) = foldl (normalize_step False) res segs"
  by (simp add: normalize_step_def)

text \<open>An absolute path in normal form: its segments, and whether it ends with a slash.\<close>

lemma path_normalize_absolute:
  assumes "p \<noteq> []" and "hd p = CHR ''/''"
  shows "\<exists>S. (\<forall>s \<in> set S. clean_segment s) \<and>
           path_normalize p =
             (if S = [] then ''/''
              else ''/'' @ join_segments S @ (if last p = CHR ''/'' then ''/'' else []))"
proof -
  let ?S = "foldl (normalize_step False) [] (split CHR ''/'' p)"
  have c: "\<forall>s \<in> set ?S. clean_segment s"
    by (rule foldl_step_clean) (auto dest: split_segments_no_sep)
  then have "join_segments ?S = [] \<longleftrightarrow> ?S = []"
    by (intro join_segments_Nil_iff) (auto simp: clean_segment_def)
  then have "path_normalize p =
             (if ?S = [] then ''/''
              else ''/'' @ join_segments ?S @ (if last p = CHR ''/'' then ''/'' else []))"
    using assms by (auto simp: path_normalize_def normalizeString_def Let_def)
  with c show ?thesis by blast
qed

lemma path_join_segment:
  assumes S: "S \<noteq> []" "\<forall>s \<in> set S. clean_segment s"
    and q: "q = ''/'' @ join_segments S @ trail" "trail = [] \<or> trail = ''/''"
    and seg: "clean_segment seg"
  shows "path_join [q, seg] = ''/'' @ join_segments S @ ''/'' @ seg"
proof -
  have nosep: "\<forall>s \<in> set S. CHR ''/'' \<notin> set s"
    using S by (auto simp: clean_segment_def)
  have segs: "split CHR ''/'' (join_segments S @ trail) = S @ (if trail = [] then [] else [[]])"
    using q(2) split_append_sep [of "CHR ''/''" "join_segments S" "[]"]
    by (auto simp: split_join_segments [OF S(1) nosep])
  have "split CHR ''/'' (q @ CHR ''/'' # seg) = split CHR ''/'' q @ [seg]"
    using seg split_append_sep [of "CHR ''/''" q seg]
    by (simp add: split_no_sep clean_segment_def)
  also have "split CHR ''/'' q = [] # S @ (if trail = [] then [] else [[]])"
    using segs by (simp add: q(1))
  finally have sp: "split CHR ''/'' (q @ CHR ''/'' # seg)
      = [] # S @ (if trail = [] then [] else [[]]) @ [seg]" by simp
  have "foldl (normalize_step False) [] ([] # S @ (if trail = [] then [] else [[]]) @ [seg])
      = S @ [seg]"
    using S seg by (simp add: foldl_step_clean_segments normalize_step_def clean_segment_def)
  then have f: "foldl (normalize_step False) [] (split CHR ''/'' (q @ CHR ''/'' # seg)) = S @ [seg]"
    by (simp only: sp)
  have "last seg \<noteq> CHR ''/''"
    using seg by (metis clean_segment_def last_in_set)
  then have "q \<noteq> []" "seg \<noteq> []" "hd (q @ CHR ''/'' # seg) = CHR ''/''"
      "last (q @ CHR ''/'' # seg) \<noteq> CHR ''/''"
    using q seg by (auto simp: clean_segment_def)
  then show ?thesis
    using S(1) f by (simp add: path_join_def path_normalize_def normalizeString_def Let_def
        join_segments_snoc)
qed

lemma clean_index_html: "clean_segment ''index.html''" "clean_segment ''404.html''"
  by (simp_all add: clean_segment_def)

lemma prefix_dir_slash_extend:
  assumes "prefix (d @ ''/'') (x @ trail)" and "trail = [] \<or> trail = ''/''"
  shows "prefix (d @ ''/'') (x @ ''/'' @ y)"
proof (cases "trail = []")
  case True
  with assms show ?thesis by (auto simp: prefix_def)
next
  case False
  with assms have t: "trail = ''/''" by simp
  from assms(1) obtain r where r: "x @ ''/'' = d @ ''/'' @ r" by (auto simp: prefix_def t)
  show ?thesis
  proof (cases r rule: rev_cases)
    case Nil
    with r have "x = d" by simp
    then show ?thesis by (simp add: prefix_def)
  next
    case (snoc r' c)
    with r have "x = d @ ''/'' @ r'" by simp
    then show ?thesis by (simp add: prefix_def)
  qed
qed

text \<open>
  Claim C9, as amended. Let the static root be an absolute path in normal form. When
  the decoded request path joined to the root gives a path that does not start with
  the root's path, \<^verbatim>\<open>serveStaticSite\<close> answers 403 and sends no file. When the joined path
  lies strictly below the root (it starts with the root's path followed by \<^verbatim>\<open>/\<close>; the
  root itself is not such a path), every file it sends lies strictly below the root as
  well, or is the wrapper's own placeholder page \<^verbatim>\<open><cwd>/src/public/placeholder.html\<close>.
  Nothing is said of a joined path that is the root itself, or that starts with the
  root's path without lying below it.
\<close>

theorem static_serving_containment:
  assumes dir: "path_normalize dir = dir" "dir \<noteq> []" "hd dir = CHR ''/''" "last dir \<noteq> CHR ''/''"
  shows
    "let filePath = path_join [dir, if reqPath = ''/'' then ''index.html'' else reqPath]
     in (\<not> prefix dir filePath \<longrightarrow> serveStaticSite os dir (Some reqPath) = Forbidden)
      \<and> (prefix (dir @ ''/'') filePath \<longrightarrow>
           (\<forall>status f. serveStaticSite os dir (Some reqPath) = SendFile status f \<longrightarrow>
              prefix (dir @ ''/'') f
              \<or> f = path_join [cwd os, ''src'', ''public'', ''placeholder.html'']))"
proof -
  define r where "r = (if reqPath = ''/'' then ''index.html'' else reqPath)"
  define filePath where "filePath = path_join [dir, r]"
  \<comment> \<open>the root, by segments\<close>
  from path_normalize_absolute [OF dir(2,3)] obtain D
    where D: "\<forall>s \<in> set D. clean_segment s"
      and "path_normalize dir =
             (if D = [] then ''/''
              else ''/'' @ join_segments D @ (if last dir = CHR ''/'' then ''/'' else []))"
    by blast
  with dir have dirD: "D \<noteq> []" "dir = ''/'' @ join_segments D @ []"
    by (auto split: if_splits)
  have in_root: "prefix (dir @ ''/'') (path_join [dir, seg])" if "clean_segment seg" for seg
    using path_join_segment [OF dirD(1) D dirD(2) _ that] dirD(2) by (simp add: prefix_def)
  \<comment> \<open>the file path, by segments\<close>
  have fp: "\<exists>p. p \<noteq> [] \<and> hd p = CHR ''/'' \<and> filePath = path_normalize p"
  proof (cases "r = []")
    case True
    then show ?thesis using dir by (auto simp: filePath_def path_join_def)
  next
    case False
    then have "filePath = path_normalize (dir @ ''/'' @ r)"
      using dir by (simp add: filePath_def path_join_def)
    moreover have "hd (dir @ ''/'' @ r) = CHR ''/''" using dir by simp
    ultimately show ?thesis by blast
  qed
  have under: "prefix (dir @ ''/'') (path_join [filePath, ''index.html''])"
    if inside: "prefix (dir @ ''/'') filePath"
  proof -
    from fp obtain p where p: "p \<noteq> []" "hd p = CHR ''/''" "filePath = path_normalize p" by blast
    from path_normalize_absolute [OF p(1,2)] obtain S
      where S: "\<forall>s \<in> set S. clean_segment s"
        and n: "path_normalize p =
             (if S = [] then ''/''
              else ''/'' @ join_segments S @ (if last p = CHR ''/'' then ''/'' else []))"
      by blast
    define trail where "trail = (if last p = CHR ''/'' then ''/'' else [])"
    have "filePath \<noteq> ''/''"
      using inside dirD by (auto simp: prefix_def)
    with n p(3) have S': "S \<noteq> []" and f: "filePath = ''/'' @ join_segments S @ trail"
      by (auto simp: trail_def split: if_splits)
    have t: "trail = [] \<or> trail = ''/''" by (simp add: trail_def)
    have "path_join [filePath, ''index.html''] = ''/'' @ join_segments S @ ''/'' @ ''index.html''"
      by (rule path_join_segment [OF S' S f t clean_index_html(1)])
    moreover have "prefix (dir @ ''/'') ((''/'' @ join_segments S) @ ''/'' @ ''index.html'')"
      using inside f t by (intro prefix_dir_slash_extend [where trail = trail]) simp_all
    ultimately show ?thesis by simp
  qed
  have "\<not> prefix dir filePath \<longrightarrow> serveStaticSite os dir (Some reqPath) = Forbidden"
    by (simp add: serveStaticSite_def filePath_def r_def Let_def)
  moreover have "prefix (dir @ ''/'') f
              \<or> f = path_join [cwd os, ''src'', ''public'', ''placeholder.html'']"
    if "prefix (dir @ ''/'') filePath" "serveStaticSite os dir (Some reqPath) = SendFile status f"
    for status f
    using that under in_root [OF clean_index_html(1)] in_root [OF clean_index_html(2)]
    by (auto simp: serveStaticSite_def filePath_def [symmetric] r_def [symmetric] Let_def
        split: if_splits)
  ultimately show ?thesis
    unfolding Let_def filePath_def [symmetric] r_def [symmetric] by blast
qed

lemmas path_eval = path_join_def path_normalize_def normalizeString_def normalize_step_def

text \<open>
  A request that climbs out of the root is refused; \<^verbatim>\<open>/blog\<close> is answered with
  \<^verbatim>\<open>blog.html\<close> from inside the root.
\<close>

theorem static_serving_containment_witness:
  "path_normalize ''/data/workspace/site/dev'' = ''/data/workspace/site/dev''
   \<and> serveStaticSite (example_os [''/data/workspace/etc/passwd''])
      ''/data/workspace/site/dev'' (Some ''/../../etc/passwd'')
     = Forbidden
   \<and> serveStaticSite (example_os [''/data/workspace/site/dev/blog.html''])
      ''/data/workspace/site/dev'' (Some ''/blog'')
     = SendFile 200 ''/data/workspace/site/dev/blog.html''
   \<and> prefix (''/data/workspace/site/dev'' @ ''/'') ''/data/workspace/site/dev/blog.html''"
proof -
  have n: "path_normalize ''/data/workspace/site/dev'' = ''/data/workspace/site/dev''"
    by (simp add: path_eval)
  have a: "path_join [''/data/workspace/site/dev'', ''/../../etc/passwd''] = ''/data/workspace/etc/passwd''"
    by (simp add: path_eval)
  have b: "path_join [''/data/workspace/site/dev'', ''/blog''] = ''/data/workspace/site/dev/blog''"
    by (simp add: path_eval)
  have c: "serveStaticSite (example_os [''/data/workspace/site/dev/blog.html''])
      ''/data/workspace/site/dev'' (Some ''/blog'')
     = SendFile 200 ''/data/workspace/site/dev/blog.html''"
    by (simp add: serveStaticSite_def example_os_def path_eval Let_def)
  from static_serving_containment [OF n, of "''/../../etc/passwd''"
      "example_os [''/data/workspace/etc/passwd'']"]
    static_serving_containment [OF n, of "''/blog''"
      "example_os [''/data/workspace/site/dev/blog.html'']"] a b c n
  show ?thesis by (simp add: Let_def)
qed

text \<open>
  Claim C9 as stated fails, in three ways.
  \<^item> By design, the placeholder page is sent from the wrapper's own directory when
    nothing under the root matches.
  \<^item> The test \<^verbatim>\<open>filePath.startsWith(dir)\<close> compares strings: the request path
    \<^verbatim>\<open>/../dev-old/notes.html\<close> resolves to a sibling of the root \<^verbatim>\<open>.../site/dev\<close> whose
    name starts with the root's name, is not refused, and the file outside the root is
    sent.
  \<^item> A request path that resolves to the root itself, such as \<^verbatim>\<open>/.\<close>, passes the test
    as well, and \<^verbatim>\<open>filePath + ".html"\<close> is then \<^verbatim>\<open>.../site/dev.html\<close>, a file beside the
    root, which is sent when it exists.
\<close>

theorem static_serving_containment_counterexample:
  "serveStaticSite (example_os [''/app/src/public/placeholder.html''])
      ''/data/workspace/site/production'' (Some ''/pricing'')
     = SendFile 200 ''/app/src/public/placeholder.html''
   \<and> path_join [''/data/workspace/site/dev'', ''/../dev-old/notes.html'']
     = ''/data/workspace/site/dev-old/notes.html''
   \<and> serveStaticSite (example_os [''/data/workspace/site/dev-old/notes.html''])
      ''/data/workspace/site/dev'' (Some ''/../dev-old/notes.html'')
     = SendFile 200 ''/data/workspace/site/dev-old/notes.html''
   \<and> path_join [''/data/workspace/site/dev'', ''/.''] = ''/data/workspace/site/dev''
   \<and> serveStaticSite (example_os [''/data/workspace/site/dev.html''])
      ''/data/workspace/site/dev'' (Some ''/.'')
     = SendFile 200 ''/data/workspace/site/dev.html''"
  by (simp add: serveStaticSite_def example_os_def path_eval Let_def)

section \<open>Shutdown\<close>

lemma exited_stays: "exited p \<Longrightarrow> fold (shutdown_step e) ins p = p"
proof (induction ins)
  case Nil
  then show ?case by simp
next
  case (Cons a ins)
  then show ?case by (cases a) (simp_all add: on_signal_def on_cmd_done_def)
qed

lemma save_alone:
  assumes "\<not> exited p" and "saves p = [st]"
  shows "trace (fold (shutdown_step e) (map (CmdDone 0) rs) p)
       = trace p @ fst (save_from e st rs) @ (if snd (save_from e st rs) then [ProcessExit] else [])"
  using assms
proof (induction rs arbitrary: p st)
  case Nil
  then show ?case by simp
next
  case (Cons r rs)
  obtain evs nxt where sr: "save_resume e st r = (evs, nxt)" by (cases "save_resume e st r")
  show ?case
  proof (cases nxt)
    case None
    have "on_cmd_done e 0 r p = process_exit (p\<lparr>trace := trace p @ evs, saves := []\<rparr>)"
      using Cons.prems sr None by (simp add: on_cmd_done_def)
    then show ?thesis
      using sr None by (simp add: exited_stays process_exit_def)
  next
    case (Some st')
    let ?p' = "p\<lparr>trace := trace p @ evs, saves := [st']\<rparr>"
    have "on_cmd_done e 0 r p = ?p'"
      using Cons.prems sr Some by (simp add: on_cmd_done_def)
    moreover have "trace (fold (shutdown_step e) (map (CmdDone 0) rs) ?p')
       = trace ?p' @ fst (save_from e st' rs) @ (if snd (save_from e st' rs) then [ProcessExit] else [])"
      using Cons.prems by (intro Cons.IH) simp_all
    ultimately show ?thesis
      using sr Some by (simp add: split_beta)
  qed
qed

text \<open>
  What a \<^verbatim>\<open>SIGINT\<close> does when no save is in flight: the process runs
  \<^verbatim>\<open>autoSaveDevChanges\<close> (status, add, commit and push of the uncommitted dev-site
  changes; a failing command ends the save without failing the shutdown) and calls
  \<^verbatim>\<open>process.exit(0)\<close> when, and only when, the save has returned; it signals no child.
\<close>

lemma sigint_saves_then_exits:
  assumes "\<not> exited p" and "saves p = []"
  shows "trace (shutdown_run e (Signal SIGINT # map (CmdDone 0) rs) p)
        = trace p @ SaveStarted # fst (autoSaveDevChanges e rs)
            @ (if snd (autoSaveDevChanges e rs) then [ProcessExit] else [])"
proof (cases "devIsGitRepo e")
  case False
  then show ?thesis
    using assms by (simp add: shutdown_run_def on_signal_def save_handler_def process_exit_def
        exited_stays autoSaveDevChanges_def)
next
  case True
  let ?p1 = "p\<lparr>trace := trace p @ [SaveStarted, Git GitStatus], saves := [AwaitStatus]\<rparr>"
  have "on_signal e SIGINT p = ?p1"
    using assms True by (simp add: on_signal_def save_handler_def)
  moreover have "trace (fold (shutdown_step e) (map (CmdDone 0) rs) ?p1)
     = trace ?p1 @ fst (save_from e AwaitStatus rs)
         @ (if snd (save_from e AwaitStatus rs) then [ProcessExit] else [])"
    using assms by (intro save_alone) simp_all
  ultimately show ?thesis
    using True by (simp add: shutdown_run_def autoSaveDevChanges_def split_beta)
qed

text \<open>
  Nothing keeps a later signal from entering the save again: a \<^verbatim>\<open>SIGINT\<close> received before
  the exit starts another \<^verbatim>\<open>autoSaveDevChanges\<close> beside those in flight.
\<close>

lemma sigint_reenters_save:
  assumes "\<not> exited p" and "devIsGitRepo e"
  shows "saves (on_signal e SIGINT p) = saves p @ [AwaitStatus]"
    and "\<not> exited (on_signal e SIGINT p)"
  using assms by (simp_all add: on_signal_def save_handler_def)

lemmas shutdown_defs =
  shutdown_run_def on_signal_def on_cmd_done_def save_handler_def kill_handler_def
  process_exit_def running_process_def dirty_repo_def is_blank_def

lemma sigint_examples:
  "trace (shutdown_run dirty_repo
      (Signal SIGINT # map (CmdDone 0)
         [(0, '' M src/pages/index.astro''), (0, []), (0, []), (0, []), (0, []), (0, [])])
      running_process)
     = [SaveStarted, Git GitStatus, Git GitConfigEmail, Git GitConfigName, Git GitAdd,
        Git GitCommit, Git GitPush, ProcessExit]"
  "saves (shutdown_run dirty_repo [Signal SIGINT, Signal SIGINT] running_process)
     = [AwaitStatus, AwaitStatus]"
  "trace (shutdown_run dirty_repo [Signal SIGINT, Signal SIGINT] running_process)
     = [SaveStarted, Git GitStatus, SaveStarted, Git GitStatus]"
  by (simp_all add: shutdown_defs)

text \<open>
  Claim C4. On \<^verbatim>\<open>SIGTERM\<close> the order "persist the uncommitted dev-site changes, then
  terminate the children, then exit" does not hold. The signal has two listeners. The
  first calls \<^verbatim>\<open>autoSaveDevChanges\<close>, which starts \<^verbatim>\<open>git status\<close> and is suspended there;
  the second runs at once, signals the gateway, the dashboard and the dev server, and
  calls \<^verbatim>\<open>process.exit(0)\<close>. Whatever the dev site holds and whatever happens afterwards,
  the trace of the shutdown is the start of the save, the kills and the exit: nothing
  is added, committed or pushed.
\<close>

theorem sigterm_exits_before_save:
  assumes "\<not> exited p" and "devIsGitRepo e"
  shows "trace (shutdown_run e (Signal SIGTERM # ins) p)
      = trace p @ [SaveStarted, Git GitStatus]
          @ map Kill (filter (\<lambda>c. c \<in> set (children p)) [GatewayChild, DashboardChild, DevServerChild])
          @ [ProcessExit]
    \<and> exited (shutdown_run e (Signal SIGTERM # ins) p)"
proof -
  let ?p1 = "on_signal e SIGTERM p"
  have ex: "exited ?p1"
    using assms by (simp add: on_signal_def save_handler_def kill_handler_def process_exit_def)
  have tr: "trace ?p1 = trace p @ [SaveStarted, Git GitStatus]
          @ map Kill (filter (\<lambda>c. c \<in> set (children p)) [GatewayChild, DashboardChild, DevServerChild])
          @ [ProcessExit]"
    using assms by (simp add: on_signal_def save_handler_def kill_handler_def process_exit_def)
  have "shutdown_run e (Signal SIGTERM # ins) p = ?p1"
    using exited_stays [OF ex] by (simp add: shutdown_run_def)
  then show ?thesis
    using ex tr by simp
qed

text \<open>
  \<^verbatim>\<open>SIGTERM\<close> with changes to save in the dev site: \<^verbatim>\<open>git status\<close> reports them after the
  process has exited, and they are never committed.
\<close>

theorem sigterm_exits_before_save_witness:
  "\<not> exited running_process \<and> devIsGitRepo dirty_repo
   \<and> trace (shutdown_run dirty_repo
        [Signal SIGTERM, CmdDone 0 (0, '' M src/pages/index.astro'')] running_process)
     = [SaveStarted, Git GitStatus, Kill GatewayChild, Kill DashboardChild, Kill DevServerChild,
        ProcessExit]"
  using sigterm_exits_before_save [of running_process dirty_repo
      "[CmdDone 0 (0, '' M src/pages/index.astro'')]"]
  by (simp add: running_process_def dirty_repo_def)

end
